theory Spec2Isabelle
  imports Main
begin

section \<open>Data model\<close>

text \<open>
  A Python \<open>str\<close> is a sequence of Unicode code points and \<open>len\<close> counts code points,
  so a string is modelled as a list of code points (\<open>nat\<close>).  \<open>py\<close> reads an ASCII
  literal as such a string.
\<close>

type_synonym pystr = "nat list"

definition py :: "string \<Rightarrow> pystr" where
  "py s = map of_char s"

abbreviation SP :: nat where
  "SP \<equiv> 32"

text \<open>
  The classes \<open>new_child_element\<close> chooses between.  \<open>Element\<close> (element.py) and
  \<open>SourceElement\<close> (source.py) are the two whose code is at hand.
\<close>

datatype element_class =
  Element | FamilyElement | IndividualElement | NoteElement | ObjectElement
  | RepositoryElement | SourceElement | SubmitterElement | SubmissionElement | HeaderElement

text \<open>
  One object of class \<open>Element\<close> (or a subclass): the private attributes \<open>__level\<close>,
  \<open>__pointer\<close>, \<open>__tag\<close>, \<open>__value\<close>, \<open>__crlf\<close> and \<open>__children\<close>.  The tree is a
  value: the \<open>__parent\<close> back-reference of a node is the node whose children list holds it
  and is not stored.
\<close>

datatype element =
  Elem (e_cls: element_class) (e_level: int) (e_pointer: pystr) (e_tag: pystr)
       (e_value: pystr) (e_crlf: pystr) (e_children: "element list")

text \<open>
  The module \<open>gedcom.tags\<close> is imported by both source files but is not among them, so
  its constants are a parameter of every function that reads them.  The same holds for
  the classes other than \<open>Element\<close> and \<open>SourceElement\<close>: \<open>get_tag_override T k\<close> is
  \<open>Some t\<close> when class \<open>k\<close> overrides \<open>get_tag\<close> to return the constant \<open>t\<close> (as
  \<open>SourceElement\<close> does) and \<open>None\<close> when it inherits \<open>Element.get_tag\<close>.
\<close>

record tags =
  GEDCOM_TAG_CONCATENATION :: pystr
  GEDCOM_TAG_CONTINUED :: pystr
  GEDCOM_TAG_FAMILY :: pystr
  GEDCOM_TAG_INDIVIDUAL :: pystr
  GEDCOM_TAG_NOTE :: pystr
  GEDCOM_TAG_OBJECT :: pystr
  GEDCOM_TAG_REPOSITORY :: pystr
  GEDCOM_TAG_SOURCE :: pystr
  GEDCOM_TAG_SUBMITTER :: pystr
  GEDCOM_TAG_SUBMISSION :: pystr
  GEDCOM_TAG_HEADER :: pystr
  get_tag_override :: "element_class \<Rightarrow> pystr option"

section \<open>Python built-ins\<close>

text \<open>\<open>str(i)\<close> for an \<open>int\<close>: decimal digits, most significant first, \<open>-\<close> for a negative.\<close>

fun digits :: "nat \<Rightarrow> pystr" where
  "digits n = (if n < 10 then [48 + n] else digits (n div 10) @ [48 + n mod 10])"

declare digits.simps [simp del]

definition str_int :: "int \<Rightarrow> pystr" where
  "str_int i = (if i < 0 then 45 # digits (nat (- i)) else digits (nat i))"

lemma length_dropWhile_minus:
  assumes "s \<noteq> []"
  shows "length (dropWhile P s) - Suc 0 < length s"
    and "length (dropWhile P s) - Suc (Suc 0) < length s"
proof -
  have "length (dropWhile P s) \<le> length s" by (rule length_dropWhile_le)
  moreover from assms have "0 < length s" by simp
  ultimately show "length (dropWhile P s) - Suc 0 < length s"
    and "length (dropWhile P s) - Suc (Suc 0) < length s" by arith+
qed

text \<open>
  \<open>str.splitlines()\<close>: the line boundaries are \<open>\n\<close>, \<open>\r\<close>, \<open>\r\n\<close>, \<open>\v\<close>, \<open>\f\<close>,
  \<open>\x1c\<close>, \<open>\x1d\<close>, \<open>\x1e\<close>, \<open>\x85\<close>, U+2028 and U+2029; the boundaries are not kept, and
  a boundary at the very end of the string opens no further (empty) line.
\<close>

definition is_linebreak :: "nat \<Rightarrow> bool" where
  "is_linebreak c \<longleftrightarrow> c \<in> {10, 11, 12, 13, 28, 29, 30, 133, 8232, 8233}"

function splitlines :: "pystr \<Rightarrow> pystr list" where
  "splitlines s =
     (if s = [] then []
      else let line = takeWhile (\<lambda>c. \<not> is_linebreak c) s;
               rest = dropWhile (\<lambda>c. \<not> is_linebreak c) s
           in if rest = [] then [line]
              else if hd rest = 13 \<and> tl rest \<noteq> [] \<and> hd (tl rest) = 10
                   then line # splitlines (tl (tl rest))
                   else line # splitlines (tl rest))"
  by pat_completeness auto

termination
  by (relation "measure length") (auto simp: length_dropWhile_minus)

declare splitlines.simps [simp del]

text \<open>\<open>sep.join(xs)\<close>.\<close>

fun str_join :: "pystr \<Rightarrow> pystr list \<Rightarrow> pystr" where
  "str_join sep [] = []"
| "str_join sep [x] = x"
| "str_join sep (x # y # ys) = x @ sep @ str_join sep (y # ys)"

section \<open>element.py\<close>

definition get_level :: "element \<Rightarrow> int" where
  "get_level self = e_level self"

definition get_pointer :: "element \<Rightarrow> pystr" where
  "get_pointer self = e_pointer self"

text \<open>
  \<open>get_tag\<close> is a virtual call: \<open>Element.get_tag\<close> returns \<open>__tag\<close>,
  \<open>SourceElement.get_tag\<close> returns \<open>GEDCOM_TAG_SOURCE\<close> whatever \<open>__tag\<close> holds.
\<close>

definition get_tag :: "tags \<Rightarrow> element \<Rightarrow> pystr" where
  "get_tag T self =
     (case e_cls self of
        Element \<Rightarrow> e_tag self
      | SourceElement \<Rightarrow> GEDCOM_TAG_SOURCE T
      | k \<Rightarrow> (case get_tag_override T k of None \<Rightarrow> e_tag self | Some t \<Rightarrow> t))"

definition get_value :: "element \<Rightarrow> pystr" where
  "get_value self = e_value self"

definition set_value :: "element \<Rightarrow> pystr \<Rightarrow> element" where
  "set_value self v =
     Elem (e_cls self) (e_level self) (e_pointer self) (e_tag self) v (e_crlf self)
          (e_children self)"

definition get_child_elements :: "element \<Rightarrow> element list" where
  "get_child_elements self = e_children self"

definition set_child_elements :: "element \<Rightarrow> element list \<Rightarrow> element" where
  "set_child_elements self cs =
     Elem (e_cls self) (e_level self) (e_pointer self) (e_tag self) (e_value self)
          (e_crlf self) cs"

text \<open>\<open>get_multi_line_value\<close>: the loop state is \<open>(result, last_crlf)\<close>.\<close>

definition get_multi_line_value_step :: "tags \<Rightarrow> pystr \<times> pystr \<Rightarrow> element \<Rightarrow> pystr \<times> pystr" where
  "get_multi_line_value_step T st element =
     (let result = fst st; last_crlf = snd st; tag = get_tag T element
      in if tag = GEDCOM_TAG_CONCATENATION T
           then (result @ get_value element, e_crlf element)
         else if tag = GEDCOM_TAG_CONTINUED T
           then (result @ last_crlf @ get_value element, e_crlf element)
         else (result, last_crlf))"

definition get_multi_line_value :: "tags \<Rightarrow> element \<Rightarrow> pystr" where
  "get_multi_line_value T self =
     fst (foldl (get_multi_line_value_step T) (get_value self, e_crlf self)
                (get_child_elements self))"

lemma size_child_less: "c \<in> set (e_children e) \<Longrightarrow> size c < size e"
  by (cases e) (auto intro: size_list_estimation' simp: less_Suc_eq_le)

text \<open>\<open>to_gedcom_string(recursive)\<close>, with \<open>result\<close> reassigned line by line.\<close>

function to_gedcom_string :: "tags \<Rightarrow> element \<Rightarrow> bool \<Rightarrow> pystr" where
  "to_gedcom_string T self recursive =
     (let result = str_int (get_level self);
          result = (if get_pointer self \<noteq> [] then result @ [SP] @ get_pointer self
                    else result);
          result = result @ [SP] @ get_tag T self;
          result = (if get_value self \<noteq> [] then result @ [SP] @ get_value self
                    else result);
          result = result @ e_crlf self;
          result = (if get_level self < 0 then [] else result)
      in if recursive
         then foldl (\<lambda>result child_element. result @ to_gedcom_string T child_element True)
                    result (get_child_elements self)
         else result)"
  by pat_completeness auto

termination
  by (relation "measure (\<lambda>(T, e, r). size e)")
     (auto simp: get_child_elements_def size_child_less)

declare to_gedcom_string.simps [simp del]

text \<open>\<open>__available_characters\<close>.\<close>

definition available_characters :: "tags \<Rightarrow> element \<Rightarrow> nat" where
  "available_characters T self =
     (let element_characters = length (to_gedcom_string T self False)
      in if element_characters > 255 then 0 else 255 - element_characters)"

text \<open>
  The \<open>while\<close> loop of \<open>__line_length\<close>.  It runs only when \<open>len(line)\<close> exceeds
  \<open>available_characters\<close>, so the index \<open>available_characters - spaces - 1\<close> is within
  the line and not negative.
\<close>

function line_length_spaces :: "pystr \<Rightarrow> nat \<Rightarrow> nat \<Rightarrow> nat" where
  "line_length_spaces line available spaces =
     (if spaces < available \<and> line ! (available - spaces - 1) = SP
      then line_length_spaces line available (spaces + 1)
      else spaces)"
  by pat_completeness auto

termination
  by (relation "measure (\<lambda>(line, available, spaces). available - spaces)") auto

declare line_length_spaces.simps [simp del]

text \<open>\<open>__line_length\<close>.\<close>

definition line_length :: "tags \<Rightarrow> element \<Rightarrow> pystr \<Rightarrow> nat" where
  "line_length T self line =
     (let total_characters = length line;
          available = available_characters T self
      in if total_characters \<le> available then total_characters
         else let spaces = line_length_spaces line available 0
              in if spaces = available then available
                 else available - spaces)"

text \<open>\<open>__set_bounded_value\<close>: the updated object and the returned length.\<close>

definition set_bounded_value :: "tags \<Rightarrow> element \<Rightarrow> pystr \<Rightarrow> element \<times> nat" where
  "set_bounded_value T self v =
     (let line_length = line_length T self v
      in (set_value self (take line_length v), line_length))"

text \<open>The \<open>if\<close>/\<open>elif\<close> chain of \<open>new_child_element\<close> that chooses the class.\<close>

definition class_of_tag :: "tags \<Rightarrow> pystr \<Rightarrow> element_class" where
  "class_of_tag T tag =
     (if tag = GEDCOM_TAG_FAMILY T then FamilyElement
      else if tag = GEDCOM_TAG_INDIVIDUAL T then IndividualElement
      else if tag = GEDCOM_TAG_NOTE T then NoteElement
      else if tag = GEDCOM_TAG_OBJECT T then ObjectElement
      else if tag = GEDCOM_TAG_REPOSITORY T then RepositoryElement
      else if tag = GEDCOM_TAG_SOURCE T then SourceElement
      else if tag = GEDCOM_TAG_SUBMITTER T then SubmitterElement
      else if tag = GEDCOM_TAG_SUBMISSION T then SubmissionElement
      else if tag = GEDCOM_TAG_HEADER T then HeaderElement
      else Element)"

text \<open>\<open>add_child_element\<close>: appends to the children list.\<close>

definition add_child_element :: "element \<Rightarrow> element \<Rightarrow> element" where
  "add_child_element self element =
     set_child_elements self (get_child_elements self @ [element])"

text \<open>
  \<open>new_child_element(tag)\<close> as the splitter calls it, with the defaults \<open>pointer = ""\<close>
  and \<open>value = ""\<close>.  The constructor then runs \<open>set_multi_line_value("")\<close> on the new
  object, which has no children and whose value is already empty, and
  \<open>"".splitlines()\<close> is empty: the object is left as constructed
  (lemma \<open>new_child_element_default\<close> below relates this to the general call).
  The result is the updated parent and the child.
\<close>

definition new_child_element_tag :: "tags \<Rightarrow> element \<Rightarrow> pystr \<Rightarrow> element \<times> element" where
  "new_child_element_tag T self tag =
     (let child_element =
            Elem (class_of_tag T tag) (get_level self + 1) [] tag [] (e_crlf self) []
      in (add_child_element self child_element, child_element))"

text \<open>
  \<open>__add_bounded_child\<close>: the child is the object just appended to the parent's list,
  so bounding its value updates the last entry of that list.
\<close>

definition add_bounded_child :: "tags \<Rightarrow> element \<Rightarrow> pystr \<Rightarrow> pystr \<Rightarrow> element \<times> nat" where
  "add_bounded_child T self tag v =
     (let (self', child) = new_child_element_tag T self tag;
          (child', n) = set_bounded_value T child v;
          cs = get_child_elements self'
      in (set_child_elements self' (cs[length cs - 1 := child']), n))"

text \<open>
  \<open>__add_concatenation\<close>: \<open>while index < size\<close>.  Nothing in the loop forces \<open>index\<close>
  to grow, so the function is partial: \<open>None\<close> is a loop that never ends.
\<close>

partial_function (option) add_concatenation_loop ::
    "tags \<Rightarrow> element \<Rightarrow> pystr \<Rightarrow> nat \<Rightarrow> element option" where
  "add_concatenation_loop T self string index =
     (if index < length string
      then add_concatenation_loop T
             (fst (add_bounded_child T self (GEDCOM_TAG_CONCATENATION T) (drop index string)))
             string
             (index + snd (add_bounded_child T self (GEDCOM_TAG_CONCATENATION T)
                                             (drop index string)))
      else Some self)"

declare add_concatenation_loop.simps [code]

definition add_concatenation :: "tags \<Rightarrow> element \<Rightarrow> pystr \<Rightarrow> element option" where
  "add_concatenation T self string = add_concatenation_loop T self string 0"

text \<open>The \<open>for line in lines\<close> loop of \<open>set_multi_line_value\<close>.\<close>

fun set_multi_line_value_lines :: "tags \<Rightarrow> element \<Rightarrow> pystr list \<Rightarrow> element option" where
  "set_multi_line_value_lines T self [] = Some self"
| "set_multi_line_value_lines T self (line # lines) =
     (let (self', n) = add_bounded_child T self (GEDCOM_TAG_CONTINUED T) line
      in case add_concatenation T self' (drop n line) of
           None \<Rightarrow> None
         | Some self'' \<Rightarrow> set_multi_line_value_lines T self'' lines)"

text \<open>\<open>set_multi_line_value\<close>.\<close>

definition set_multi_line_value :: "tags \<Rightarrow> element \<Rightarrow> pystr \<Rightarrow> element option" where
  "set_multi_line_value T self v =
     (let self = set_value self [];
          self = set_child_elements self
                   (filter (\<lambda>child. get_tag T child \<notin>
                               {GEDCOM_TAG_CONCATENATION T, GEDCOM_TAG_CONTINUED T})
                           (get_child_elements self));
          lines = splitlines v
      in if lines \<noteq> []
         then let line = hd lines; lines = tl lines;
                  (self, n) = set_bounded_value T self line
              in case add_concatenation T self (drop n line) of
                   None \<Rightarrow> None
                 | Some self \<Rightarrow> set_multi_line_value_lines T self lines
         else Some self)"

text \<open>
  \<open>__init__\<close>, inherited by every subclass: \<open>k\<close> is the class being constructed.
\<close>

definition element_init ::
    "tags \<Rightarrow> element_class \<Rightarrow> int \<Rightarrow> pystr \<Rightarrow> pystr \<Rightarrow> pystr \<Rightarrow> pystr \<Rightarrow> bool \<Rightarrow> element option" where
  "element_init T k level pointer tag v crlf multi_line =
     (let self = Elem k level pointer tag v crlf []
      in if multi_line then set_multi_line_value T self v else Some self)"

text \<open>\<open>new_child_element(tag, pointer, value)\<close> in general.\<close>

definition new_child_element ::
    "tags \<Rightarrow> element \<Rightarrow> pystr \<Rightarrow> pystr \<Rightarrow> pystr \<Rightarrow> (element \<times> element) option" where
  "new_child_element T self tag pointer v =
     (case element_init T (class_of_tag T tag) (get_level self + 1) pointer tag v
             (e_crlf self) True of
        None \<Rightarrow> None
      | Some child_element \<Rightarrow> Some (add_child_element self child_element, child_element))"

section \<open>source.py\<close>

text \<open>
  \<open>SourceElement.get_repository_pointer\<close>: the loop state is the two local variables
  \<open>(repository_pointer, reference)\<close>; \<open>reference\<close> is unbound until the first assignment.
\<close>

definition get_repository_pointer :: "tags \<Rightarrow> element \<Rightarrow> pystr" where
  "get_repository_pointer T self =
     (let repository_pointer = [];
          (repository_pointer, reference) =
            foldl (\<lambda>(repository_pointer, reference) child.
                     if get_tag T child = GEDCOM_TAG_REPOSITORY T
                     then (repository_pointer, Some (get_value child))
                     else (repository_pointer, reference))
                  (repository_pointer, None) (get_child_elements self)
      in repository_pointer)"

section \<open>Concrete instances\<close>

text \<open>
  One value of the parameter, used in the concrete instances only: the tag names of the
  GEDCOM 5.5 standard, with every class other than \<open>Element\<close> returning its own tag
  from \<open>get_tag\<close>, as \<open>SourceElement\<close> does.  The general theorems hold for every
  value of the parameter.
\<close>

definition gedcom55 :: tags where
  "gedcom55 =
     \<lparr> GEDCOM_TAG_CONCATENATION = py ''CONC'',
       GEDCOM_TAG_CONTINUED = py ''CONT'',
       GEDCOM_TAG_FAMILY = py ''FAM'',
       GEDCOM_TAG_INDIVIDUAL = py ''INDI'',
       GEDCOM_TAG_NOTE = py ''NOTE'',
       GEDCOM_TAG_OBJECT = py ''OBJE'',
       GEDCOM_TAG_REPOSITORY = py ''REPO'',
       GEDCOM_TAG_SOURCE = py ''SOUR'',
       GEDCOM_TAG_SUBMITTER = py ''SUBM'',
       GEDCOM_TAG_SUBMISSION = py ''SUBN'',
       GEDCOM_TAG_HEADER = py ''HEAD'',
       get_tag_override = (\<lambda>k. case k of
           Element \<Rightarrow> None
         | FamilyElement \<Rightarrow> Some (py ''FAM'')
         | IndividualElement \<Rightarrow> Some (py ''INDI'')
         | NoteElement \<Rightarrow> Some (py ''NOTE'')
         | ObjectElement \<Rightarrow> Some (py ''OBJE'')
         | RepositoryElement \<Rightarrow> Some (py ''REPO'')
         | SourceElement \<Rightarrow> Some (py ''SOUR'')
         | SubmitterElement \<Rightarrow> Some (py ''SUBM'')
         | SubmissionElement \<Rightarrow> Some (py ''SUBN'')
         | HeaderElement \<Rightarrow> Some (py ''HEAD'')) \<rparr>"

section \<open>Notions used to state the claims\<close>

text \<open>The run of spaces that ends a string: what a backward scan from its end skips.\<close>

definition trailing_spaces :: "pystr \<Rightarrow> nat" where
  "trailing_spaces xs = length (takeWhile (\<lambda>c. c = SP) (rev xs))"

text \<open>
  The prefix of a node's line as section 4.1 of the specification words it: the line as it
  would serialize with an empty value (level, optional pointer, tag, separators), without
  the line terminator; a node of negative level serializes to nothing.
\<close>

definition render_prefix :: "tags \<Rightarrow> element \<Rightarrow> pystr" where
  "render_prefix T self =
     (if get_level self < 0 then []
      else str_int (get_level self)
           @ (if get_pointer self = [] then [] else [SP] @ get_pointer self)
           @ [SP] @ get_tag T self)"

text \<open>
  The length of a node's rendered line with the terminator left out of the count
  (section 6 of the specification: prefix + value, before terminator).
\<close>

definition line_chars :: "tags \<Rightarrow> element \<Rightarrow> nat" where
  "line_chars T n = length (to_gedcom_string T n False) - length (e_crlf n)"

text \<open>
  The child that \<open>new_child_element(tag)\<close> appends to \<open>self\<close>, before any value is set,
  and the budget \<open>__available_characters\<close> computes for it.
\<close>

definition child_of :: "tags \<Rightarrow> element \<Rightarrow> pystr \<Rightarrow> element" where
  "child_of T self tag =
     Elem (class_of_tag T tag) (e_level self + 1) [] tag [] (e_crlf self) []"

definition child_budget :: "tags \<Rightarrow> element \<Rightarrow> pystr \<Rightarrow> nat" where
  "child_budget T self tag = available_characters T (child_of T self tag)"

text \<open>
  A node as \<open>__add_bounded_child(tag, _)\<close> leaves it: the fresh child of \<open>self\<close> with a
  chunk no longer than its budget as value.
\<close>

definition chunk_child :: "tags \<Rightarrow> element \<Rightarrow> pystr \<Rightarrow> element \<Rightarrow> bool" where
  "chunk_child T self tag c \<longleftrightarrow>
     (\<exists>chunk. c = set_value (child_of T self tag) chunk
              \<and> length chunk \<le> child_budget T self tag)"

text \<open>
  The tags for which \<open>new_child_element\<close> chooses a class of its own.  The claims about
  the join need the two reserved tags to differ from each other and from these, so that a
  generated child is a plain \<open>Element\<close> whose \<open>get_tag\<close> is the tag it was created with.
\<close>

definition record_tags :: "tags \<Rightarrow> pystr set" where
  "record_tags T =
     {GEDCOM_TAG_FAMILY T, GEDCOM_TAG_INDIVIDUAL T, GEDCOM_TAG_NOTE T, GEDCOM_TAG_OBJECT T,
      GEDCOM_TAG_REPOSITORY T, GEDCOM_TAG_SOURCE T, GEDCOM_TAG_SUBMITTER T,
      GEDCOM_TAG_SUBMISSION T, GEDCOM_TAG_HEADER T}"

definition wf_tags :: "tags \<Rightarrow> bool" where
  "wf_tags T \<longleftrightarrow>
     GEDCOM_TAG_CONCATENATION T \<noteq> GEDCOM_TAG_CONTINUED T
     \<and> GEDCOM_TAG_CONCATENATION T \<notin> record_tags T
     \<and> GEDCOM_TAG_CONTINUED T \<notin> record_tags T"

text \<open>
  The children that the purge of \<open>set_multi_line_value\<close> keeps, and the children of the
  result \<open>r\<close> that come after them: the ones the call generated.
\<close>

definition kept_children :: "tags \<Rightarrow> element \<Rightarrow> element list" where
  "kept_children T self =
     filter (\<lambda>child. get_tag T child \<noteq> GEDCOM_TAG_CONCATENATION T
                    \<and> get_tag T child \<noteq> GEDCOM_TAG_CONTINUED T)
            (e_children self)"

definition generated_children :: "tags \<Rightarrow> element \<Rightarrow> element \<Rightarrow> element list" where
  "generated_children T self r = drop (length (kept_children T self)) (e_children r)"

text \<open>
  The first bounded chunk of the first physical line of \<open>v\<close>, cut with the budget the
  node has once its value is cleared.
\<close>

definition first_chunk :: "tags \<Rightarrow> element \<Rightarrow> pystr \<Rightarrow> pystr" where
  "first_chunk T self v =
     (case splitlines v of
        [] \<Rightarrow> []
      | line # lines \<Rightarrow> take (line_length T (set_value self []) line) line)"

text \<open>
  The children that hold one further physical line: a continuation child followed by
  concatenation children, whose values together are the line.
\<close>

definition holds_line :: "tags \<Rightarrow> pystr \<Rightarrow> element list \<Rightarrow> bool" where
  "holds_line T line g \<longleftrightarrow>
     (\<exists>c cs. g = c # cs
        \<and> e_tag c = GEDCOM_TAG_CONTINUED T
        \<and> (\<forall>x \<in> set cs. e_tag x = GEDCOM_TAG_CONCATENATION T)
        \<and> concat (map e_value g) = line)"

section \<open>Concrete nodes for the instances\<close>

text \<open>A node with a budget of four characters: level 0, a tag of 248 characters, \<open>\n\<close>.\<close>

definition narrow_node :: element where
  "narrow_node = Elem Element 0 [] (replicate 248 88) [] [10] []"

text \<open>The line \<open>0 NOTE\<close> with the terminator \<open>\n\<close>.\<close>

definition note_node :: element where
  "note_node = Elem Element 0 [] (py ''NOTE'') [] [10] []"

text \<open>The line \<open>0 NOTE\<close> with an empty terminator.\<close>

definition bare_node :: element where
  "bare_node = Elem Element 0 [] (py ''NOTE'') [] [] []"

text \<open>The line \<open>0 NOTE\<close> with a terminator of 249 characters \<open>\n\<close>.\<close>

definition wide_node :: element where
  "wide_node = Elem Element 0 [] (py ''NOTE'') [] (replicate 249 10) []"

text \<open>
  The line \<open>0 NOTE old\<close> with three children: a concatenation and a continuation line
  left by an earlier call, and a \<open>DATE\<close> line between them.
\<close>

definition stale_node :: element where
  "stale_node = Elem Element 0 [] (py ''NOTE'') (py ''old'') [10]
     [Elem Element 1 [] (py ''CONC'') (py '' text'') [10] [],
      Elem Element 1 [] (py ''DATE'') (py ''1900'') [10] [],
      Elem Element 1 [] (py ''CONT'') (py ''more'') [10] []]"

text \<open>A value of two physical lines, the first longer than a line: 300 letters \<open>a\<close>, \<open>\n\<close>, \<open>bc\<close>.\<close>

definition long_two_lines :: pystr where
  "long_two_lines = replicate 300 97 @ [10] @ py ''bc''"

section \<open>Basic facts about the accessors and the serializer\<close>

lemma set_value_sel [simp]:
  "e_cls (set_value e v) = e_cls e" "e_level (set_value e v) = e_level e"
  "e_pointer (set_value e v) = e_pointer e" "e_tag (set_value e v) = e_tag e"
  "e_value (set_value e v) = v" "e_crlf (set_value e v) = e_crlf e"
  "e_children (set_value e v) = e_children e"
  by (simp_all add: set_value_def)

lemma set_child_elements_sel [simp]:
  "e_cls (set_child_elements e cs) = e_cls e" "e_level (set_child_elements e cs) = e_level e"
  "e_pointer (set_child_elements e cs) = e_pointer e" "e_tag (set_child_elements e cs) = e_tag e"
  "e_value (set_child_elements e cs) = e_value e" "e_crlf (set_child_elements e cs) = e_crlf e"
  "e_children (set_child_elements e cs) = cs"
  by (simp_all add: set_child_elements_def)

lemma get_tag_set_value [simp]: "get_tag T (set_value e v) = get_tag T e"
  by (simp add: get_tag_def cong: element_class.case_cong option.case_cong)

lemma get_tag_set_child_elements [simp]: "get_tag T (set_child_elements e cs) = get_tag T e"
  by (simp add: get_tag_def cong: element_class.case_cong option.case_cong)

lemma set_child_elements_twice [simp]:
  "set_child_elements (set_child_elements e cs) ds = set_child_elements e ds"
  by (simp add: set_child_elements_def)

lemma set_value_twice [simp]: "set_value (set_value e v) w = set_value e w"
  by (simp add: set_value_def)

lemma set_child_elements_same [simp]: "set_child_elements e (e_children e) = e"
  by (cases e) (simp add: set_child_elements_def)

lemma to_gedcom_string_line:
  "to_gedcom_string T e False =
     (if e_level e < 0 then []
      else str_int (e_level e) @ (if e_pointer e = [] then [] else SP # e_pointer e)
           @ SP # get_tag T e @ (if e_value e = [] then [] else SP # e_value e) @ e_crlf e)"
  by (simp add: to_gedcom_string.simps [of T e False] get_level_def get_pointer_def
        get_value_def Let_def)

lemma foldl_append_fun:
  "foldl (\<lambda>r c. r @ f c) a xs = a @ concat (map f xs)"
  by (induction xs arbitrary: a) simp_all

lemma to_gedcom_string_recursive:
  "to_gedcom_string T e True =
     to_gedcom_string T e False @ concat (map (\<lambda>c. to_gedcom_string T c True) (e_children e))"
  by (simp add: to_gedcom_string.simps [of T e True] to_gedcom_string.simps [of T e False]
       foldl_append_fun get_child_elements_def Let_def)

lemma to_gedcom_string_set_child_elements [simp]:
  "to_gedcom_string T (set_child_elements e cs) False = to_gedcom_string T e False"
  by (simp add: to_gedcom_string_line)

lemma available_characters_set_child_elements [simp]:
  "available_characters T (set_child_elements e cs) = available_characters T e"
  by (simp add: available_characters_def)

lemma get_repository_pointer_fold:
  "fst (foldl (\<lambda>(repository_pointer, reference) child.
                     if get_tag T child = GEDCOM_TAG_REPOSITORY T
                     then (repository_pointer, Some (get_value child))
                     else (repository_pointer, reference)) (p, r) cs) = p"
  by (induction cs arbitrary: r) simp_all

section \<open>The line budget\<close>

lemma line_length_spaces_eq:
  "spaces \<le> available \<Longrightarrow> available \<le> length line \<Longrightarrow>
   line_length_spaces line available spaces =
     spaces + trailing_spaces (take (available - spaces) line)"
proof (induction line available spaces rule: line_length_spaces.induct)
  case (1 line available spaces)
  show ?case
  proof (cases "spaces < available")
    case False
    then have "line_length_spaces line available spaces = spaces"
      by (subst line_length_spaces.simps) simp
    with False "1.prems" show ?thesis
      by (simp add: trailing_spaces_def)
  next
    case True
    define i where "i = available - spaces - 1"
    from True "1.prems" have i: "i < length line" "available - spaces = Suc i"
      by (simp_all add: i_def)
    have tk: "take (available - spaces) line = take i line @ [line ! i]"
      using i by (simp add: take_Suc_conv_app_nth)
    show ?thesis
    proof (cases "line ! i = SP")
      case sp: True
      with True have "line_length_spaces line available spaces =
          line_length_spaces line available (spaces + 1)"
        by (simp add: line_length_spaces.simps [of line available spaces] i_def)
      also have "\<dots> = spaces + 1 + trailing_spaces (take (available - (spaces + 1)) line)"
        using "1.IH" True sp "1.prems" by (simp add: i_def)
      also have "available - (spaces + 1) = i" by (simp add: i_def)
      finally show ?thesis using sp by (simp add: tk trailing_spaces_def)
    next
      case nsp: False
      with True have "line_length_spaces line available spaces = spaces"
        by (simp add: line_length_spaces.simps [of line available spaces] i_def)
      then show ?thesis using nsp by (simp add: tk trailing_spaces_def)
    qed
  qed
qed

lemma trailing_spaces_le: "trailing_spaces xs \<le> length xs"
  unfolding trailing_spaces_def
  using length_takeWhile_le [of "\<lambda>c. c = SP" "rev xs"] by simp

lemma line_length_eq:
  "line_length T e line =
     (if length line \<le> available_characters T e then length line
      else if trailing_spaces (take (available_characters T e) line) = available_characters T e
           then available_characters T e
           else available_characters T e - trailing_spaces (take (available_characters T e) line))"
  by (simp add: line_length_def Let_def line_length_spaces_eq)

lemma line_length_le_length: "line_length T e line \<le> length line"
  by (auto simp add: line_length_eq)

lemma line_length_le_available: "line_length T e line \<le> available_characters T e"
  by (simp add: line_length_eq)

lemma line_length_pos:
  "line \<noteq> [] \<Longrightarrow> 0 < available_characters T e \<Longrightarrow> 0 < line_length T e line"
  using trailing_spaces_le [of "take (available_characters T e) line"]
  by (auto simp add: line_length_eq)

lemma line_length_zero:
  "length line > available_characters T e \<Longrightarrow> line_length T e line = 0 \<longleftrightarrow> available_characters T e = 0"
  using trailing_spaces_le [of "take (available_characters T e) line"]
  by (auto simp add: line_length_eq)

lemma available_characters_eq:
  "available_characters T e = 255 - length (to_gedcom_string T e False)"
  by (simp add: available_characters_def Let_def)

lemma narrow_node_budget: "available_characters gedcom55 narrow_node = 4"
  by (simp add: narrow_node_def available_characters_def to_gedcom_string_line get_tag_def
        str_int_def digits.simps)

section \<open>The splitter\<close>

lemma child_of_set_child_elements [simp]:
  "child_of T (set_child_elements self cs) tag = child_of T self tag"
  by (simp add: child_of_def)

lemma child_of_set_value [simp]:
  "child_of T (set_value self v) tag = child_of T self tag"
  by (simp add: child_of_def)

lemma child_budget_set_child_elements [simp]:
  "child_budget T (set_child_elements self cs) tag = child_budget T self tag"
  by (simp add: child_budget_def)

lemma chunk_child_set_child_elements [simp]:
  "chunk_child T (set_child_elements self cs) tag c = chunk_child T self tag c"
  by (simp add: chunk_child_def)

lemma line_length_set_child_elements [simp]:
  "line_length T (set_child_elements e cs) line = line_length T e line"
  by (simp add: line_length_def)

lemma add_bounded_child_eq:
  "add_bounded_child T self tag v =
     (set_child_elements self
        (e_children self @
         [set_value (child_of T self tag) (take (line_length T (child_of T self tag) v) v)]),
      line_length T (child_of T self tag) v)"
  by (simp add: add_bounded_child_def new_child_element_tag_def add_child_element_def
        set_bounded_value_def get_child_elements_def get_level_def child_of_def Let_def)

lemma add_bounded_child_chunk:
  "chunk_child T self tag
     (set_value (child_of T self tag) (take (line_length T (child_of T self tag) v) v))"
  unfolding chunk_child_def child_budget_def
  using line_length_le_available [of T "child_of T self tag" v] by auto

text \<open>
  What the loop of \<open>__add_concatenation\<close> has done when it returns: it has appended
  concatenation children whose values, in order, are the rest of the string.
\<close>

lemma add_concatenation_loop_result:
  assumes ret: "add_concatenation_loop T self string index = Some r"
  shows "\<exists>gen. r = set_child_elements self (e_children self @ gen)
           \<and> (\<forall>c \<in> set gen. chunk_child T self (GEDCOM_TAG_CONCATENATION T) c)
           \<and> concat (map e_value gen) = drop index string"
proof (rule add_concatenation_loop.raw_induct
    [where P = "\<lambda>T self string index r.
        \<exists>gen. r = set_child_elements self (e_children self @ gen)
           \<and> (\<forall>c \<in> set gen. chunk_child T self (GEDCOM_TAG_CONCATENATION T) c)
           \<and> concat (map e_value gen) = drop index string", OF _ ret])
  fix f T self string index r
  assume IH: "\<And>T self string index r. f T self string index = Some r \<Longrightarrow>
        \<exists>gen. r = set_child_elements self (e_children self @ gen)
           \<and> (\<forall>c \<in> set gen. chunk_child T self (GEDCOM_TAG_CONCATENATION T) c)
           \<and> concat (map e_value gen) = drop index string"
    and eq: "(if index < length string
      then f T
             (fst (add_bounded_child T self (GEDCOM_TAG_CONCATENATION T) (drop index string)))
             string
             (index + snd (add_bounded_child T self (GEDCOM_TAG_CONCATENATION T)
                                             (drop index string)))
      else Some self) = Some r"
  define tag where "tag = GEDCOM_TAG_CONCATENATION T"
  define n where "n = line_length T (child_of T self tag) (drop index string)"
  define c where "c = set_value (child_of T self tag) (take n (drop index string))"
  show "\<exists>gen. r = set_child_elements self (e_children self @ gen)
           \<and> (\<forall>c \<in> set gen. chunk_child T self (GEDCOM_TAG_CONCATENATION T) c)
           \<and> concat (map e_value gen) = drop index string"
  proof (cases "index < length string")
    case False
    with eq have "r = self" by simp
    with False show ?thesis by (intro exI [of _ "[]"]) simp
  next
    case True
    with eq have "f T (set_child_elements self (e_children self @ [c])) string (index + n) = Some r"
      by (simp add: add_bounded_child_eq tag_def n_def c_def)
    from IH [OF this] obtain gen where
      r: "r = set_child_elements self (e_children self @ c # gen)"
      and ch: "\<forall>x \<in> set gen. chunk_child T self tag x"
      and cat: "concat (map e_value gen) = drop (index + n) string"
      by (auto simp: tag_def)
    have c: "chunk_child T self tag c"
      unfolding c_def n_def by (rule add_bounded_child_chunk)
    have "take n (drop index string) @ drop (index + n) string = drop index string"
      by (metis add.commute append_take_drop_id drop_drop)
    with r ch cat c show ?thesis
      by (intro exI [of _ "c # gen"]) (simp add: tag_def c_def)
  qed
qed

text \<open>
  When the loop returns and when it does not: a child budget of 0 with characters left
  to place never ends, a positive budget always does.
\<close>

lemma add_concatenation_loop_returns_budget:
  assumes ret: "add_concatenation_loop T self string index = Some r"
  shows "index < length string \<longrightarrow> 0 < child_budget T self (GEDCOM_TAG_CONCATENATION T)"
proof (rule add_concatenation_loop.raw_induct
    [where P = "\<lambda>T self string index r.
        index < length string \<longrightarrow> 0 < child_budget T self (GEDCOM_TAG_CONCATENATION T)",
     OF _ ret])
  fix f T self string index r
  assume IH: "\<And>T self string index r. f T self string index = Some r \<Longrightarrow>
        index < length string \<longrightarrow> 0 < child_budget T self (GEDCOM_TAG_CONCATENATION T)"
    and eq: "(if index < length string
      then f T
             (fst (add_bounded_child T self (GEDCOM_TAG_CONCATENATION T) (drop index string)))
             string
             (index + snd (add_bounded_child T self (GEDCOM_TAG_CONCATENATION T)
                                             (drop index string)))
      else Some self) = Some r"
  show "index < length string \<longrightarrow> 0 < child_budget T self (GEDCOM_TAG_CONCATENATION T)"
  proof (intro impI, rule ccontr)
    assume lt: "index < length string"
      and "\<not> 0 < child_budget T self (GEDCOM_TAG_CONCATENATION T)"
    then have zero: "child_budget T self (GEDCOM_TAG_CONCATENATION T) = 0" by simp
    have "line_length T (child_of T self (GEDCOM_TAG_CONCATENATION T)) (drop index string) = 0"
      using line_length_le_available
        [of T "child_of T self (GEDCOM_TAG_CONCATENATION T)" "drop index string"] zero
      by (simp add: child_budget_def)
    with eq lt have "f T (fst (add_bounded_child T self (GEDCOM_TAG_CONCATENATION T)
                                  (drop index string))) string index = Some r"
      by (simp add: add_bounded_child_eq)
    from IH [OF this] lt zero show False
      by (simp add: add_bounded_child_eq)
  qed
qed

lemma add_concatenation_loop_diverges:
  "child_budget T self (GEDCOM_TAG_CONCATENATION T) = 0 \<Longrightarrow> index < length string \<Longrightarrow>
   add_concatenation_loop T self string index = None"
  using add_concatenation_loop_returns_budget [of T self string index]
  by (cases "add_concatenation_loop T self string index") auto

lemma add_concatenation_loop_returns:
  assumes "0 < child_budget T self (GEDCOM_TAG_CONCATENATION T)"
  shows "\<exists>r. add_concatenation_loop T self string index = Some r"
  using assms
proof (induction "length string - index" arbitrary: self index rule: less_induct)
  case less
  show ?case
  proof (cases "index < length string")
    case False
    then show ?thesis by (simp add: add_concatenation_loop.simps [of T self string index])
  next
    case True
    define tag where "tag = GEDCOM_TAG_CONCATENATION T"
    define n where "n = line_length T (child_of T self tag) (drop index string)"
    define self' where "self' = fst (add_bounded_child T self tag (drop index string))"
    from True less.prems have "0 < n"
      unfolding n_def by (intro line_length_pos) (simp_all add: child_budget_def tag_def)
    with True have "length string - (index + n) < length string - index" by arith
    moreover have "0 < child_budget T self' (GEDCOM_TAG_CONCATENATION T)"
      using less.prems by (simp add: self'_def add_bounded_child_eq)
    ultimately obtain r where "add_concatenation_loop T self' string (index + n) = Some r"
      using less.hyps [of "index + n" self'] by blast
    with True show ?thesis
      by (subst add_concatenation_loop.simps)
         (simp add: self'_def n_def tag_def add_bounded_child_eq)
  qed
qed

lemma add_concatenation_loop_fits:
  "length string \<le> index \<Longrightarrow> add_concatenation_loop T self string index = Some self"
  by (simp add: add_concatenation_loop.simps [of T self string index])

section \<open>The join over generated children\<close>

lemma class_of_tag_Element: "tag \<notin> record_tags T \<Longrightarrow> class_of_tag T tag = Element"
  by (simp add: record_tags_def class_of_tag_def)

lemma get_tag_chunk_child:
  "tag \<notin> record_tags T \<Longrightarrow> chunk_child T self tag c \<Longrightarrow> get_tag T c = tag"
  by (auto simp: chunk_child_def child_of_def class_of_tag_Element get_tag_def)

lemma e_crlf_chunk_child: "chunk_child T self tag c \<Longrightarrow> e_crlf c = e_crlf self"
  by (auto simp: chunk_child_def child_of_def)

lemma step_concatenation:
  assumes "wf_tags T" "chunk_child T self (GEDCOM_TAG_CONCATENATION T) c"
  shows "get_multi_line_value_step T (res, lc) c = (res @ e_value c, e_crlf self)"
proof -
  from assms have "get_tag T c = GEDCOM_TAG_CONCATENATION T"
    by (simp add: wf_tags_def get_tag_chunk_child)
  moreover from assms have "e_crlf c = e_crlf self" by (simp add: e_crlf_chunk_child)
  ultimately show ?thesis
    by (simp add: get_multi_line_value_step_def Let_def get_value_def)
qed

lemma step_continued:
  assumes "wf_tags T" "chunk_child T self (GEDCOM_TAG_CONTINUED T) c"
  shows "get_multi_line_value_step T (res, lc) c = (res @ lc @ e_value c, e_crlf self)"
proof -
  from assms have "get_tag T c = GEDCOM_TAG_CONTINUED T"
    by (simp add: wf_tags_def get_tag_chunk_child)
  moreover from assms have "e_crlf c = e_crlf self" by (simp add: e_crlf_chunk_child)
  moreover from assms have "GEDCOM_TAG_CONTINUED T \<noteq> GEDCOM_TAG_CONCATENATION T"
    by (auto simp: wf_tags_def)
  ultimately show ?thesis
    by (simp add: get_multi_line_value_step_def Let_def get_value_def)
qed

lemma foldl_step_concatenation:
  assumes wf: "wf_tags T"
  shows "\<forall>c \<in> set gen. chunk_child T self (GEDCOM_TAG_CONCATENATION T) c \<Longrightarrow>
   foldl (get_multi_line_value_step T) (res, lc) gen =
     (res @ concat (map e_value gen), if gen = [] then lc else e_crlf self)"
proof (induction gen arbitrary: res lc)
  case Nil
  then show ?case by simp
next
  case (Cons c gen)
  then have c: "chunk_child T self (GEDCOM_TAG_CONCATENATION T) c"
    and gen: "\<forall>x \<in> set gen. chunk_child T self (GEDCOM_TAG_CONCATENATION T) x"
    by simp_all
  show ?case
    by (simp add: step_concatenation [OF wf c] Cons.IH [OF gen])
qed

lemma foldl_step_kept:
  "foldl (get_multi_line_value_step T) st (kept_children T self) = st"
proof -
  have "\<forall>c \<in> set cs. get_tag T c \<noteq> GEDCOM_TAG_CONCATENATION T
                       \<and> get_tag T c \<noteq> GEDCOM_TAG_CONTINUED T \<Longrightarrow>
        foldl (get_multi_line_value_step T) st cs = st" for cs
    by (induction cs arbitrary: st) (simp_all add: get_multi_line_value_step_def)
  then show ?thesis by (simp add: kept_children_def)
qed

lemma set_multi_line_value_lines_result:
  "set_multi_line_value_lines T self lines = Some r \<Longrightarrow>
   \<exists>gen. r = set_child_elements self (e_children self @ gen)
     \<and> (\<forall>c \<in> set gen. chunk_child T self (GEDCOM_TAG_CONCATENATION T) c
                      \<or> chunk_child T self (GEDCOM_TAG_CONTINUED T) c)
     \<and> (wf_tags T \<longrightarrow>
          (\<forall>res. foldl (get_multi_line_value_step T) (res, e_crlf self) gen =
                 (res @ concat (map (\<lambda>l. e_crlf self @ l) lines), e_crlf self)))"
proof (induction lines arbitrary: self r)
  case Nil
  then show ?case by (intro exI [of _ "[]"]) simp
next
  case (Cons line lines)
  define tag where "tag = GEDCOM_TAG_CONTINUED T"
  define n where "n = line_length T (child_of T self tag) line"
  define c where "c = set_value (child_of T self tag) (take n line)"
  define self1 where "self1 = set_child_elements self (e_children self @ [c])"
  have abc: "add_bounded_child T self (GEDCOM_TAG_CONTINUED T) line = (self1, n)"
    by (simp add: add_bounded_child_eq self1_def c_def n_def tag_def)
  from Cons.prems obtain self2 where
    loop: "add_concatenation_loop T self1 (drop n line) 0 = Some self2"
    and rest: "set_multi_line_value_lines T self2 lines = Some r"
    by (auto simp: abc add_concatenation_def split: option.splits)
  from add_concatenation_loop_result [OF loop] obtain gen1 where
    self2: "self2 = set_child_elements self (e_children self @ c # gen1)"
    and ch1: "\<forall>x \<in> set gen1. chunk_child T self (GEDCOM_TAG_CONCATENATION T) x"
    and cat1: "concat (map e_value gen1) = drop n line"
    by (auto simp: self1_def)
  from Cons.IH [OF rest] obtain gen2 where
    r: "r = set_child_elements self (e_children self @ c # gen1 @ gen2)"
    and ch2: "\<forall>x \<in> set gen2. chunk_child T self (GEDCOM_TAG_CONCATENATION T) x
                      \<or> chunk_child T self (GEDCOM_TAG_CONTINUED T) x"
    and j2: "wf_tags T \<longrightarrow>
          (\<forall>res. foldl (get_multi_line_value_step T) (res, e_crlf self) gen2 =
                 (res @ concat (map (\<lambda>l. e_crlf self @ l) lines), e_crlf self))"
    by (auto simp: self2)
  have c: "chunk_child T self (GEDCOM_TAG_CONTINUED T) c"
    unfolding c_def n_def tag_def by (rule add_bounded_child_chunk)
  have cv: "e_value c = take n line" by (simp add: c_def)
  have j: "foldl (get_multi_line_value_step T) (res, e_crlf self) (c # gen1 @ gen2) =
        (res @ concat (map (\<lambda>l. e_crlf self @ l) (line # lines)), e_crlf self)"
    if wf: "wf_tags T" for res
  proof -
    have "foldl (get_multi_line_value_step T) (res, e_crlf self) (c # gen1 @ gen2) =
        foldl (get_multi_line_value_step T)
          (foldl (get_multi_line_value_step T) (res @ e_crlf self @ take n line, e_crlf self) gen1)
          gen2"
      by (simp add: step_continued [OF wf c] cv)
    also have "\<dots> = foldl (get_multi_line_value_step T)
          (res @ e_crlf self @ take n line @ drop n line, e_crlf self) gen2"
      by (simp add: foldl_step_concatenation [OF wf ch1] cat1)
    also have "\<dots> = (res @ e_crlf self @ line @ concat (map (\<lambda>l. e_crlf self @ l) lines),
                     e_crlf self)"
      using j2 wf by simp
    finally show ?thesis by simp
  qed
  show ?case
    using r ch1 ch2 c j by (intro exI [of _ "c # gen1 @ gen2"]) auto
qed

section \<open>The result of \<open>set_multi_line_value\<close>\<close>

lemma child_budget_set_value [simp]:
  "child_budget T (set_value self v) tag = child_budget T self tag"
  by (simp add: child_budget_def)

lemma chunk_child_set_value [simp]:
  "chunk_child T (set_value self v) tag c = chunk_child T self tag c"
  by (simp add: chunk_child_def)

lemma set_value_set_child_elements:
  "set_value (set_child_elements e cs) v = set_child_elements (set_value e v) cs"
  by (simp add: set_value_def set_child_elements_def)

lemma str_join_Cons:
  "str_join sep (l # ls) = l @ concat (map (\<lambda>x. sep @ x) ls)"
  by (induction ls arbitrary: l) simp_all

lemma set_multi_line_value_unfold:
  "set_multi_line_value T e v =
     (case splitlines v of
        [] \<Rightarrow> Some (set_child_elements (set_value e []) (kept_children T e))
      | line # lines \<Rightarrow>
          (case add_concatenation_loop T
                  (set_child_elements (set_value e (first_chunk T e v)) (kept_children T e))
                  (drop (line_length T (set_value e []) line) line) 0 of
             None \<Rightarrow> None
           | Some self \<Rightarrow> set_multi_line_value_lines T self lines))"
  by (cases "splitlines v")
     (simp_all add: set_multi_line_value_def kept_children_def get_child_elements_def
        set_bounded_value_def add_concatenation_def first_chunk_def
        set_value_set_child_elements Let_def)

lemma set_multi_line_value_result:
  assumes ret: "set_multi_line_value T e v = Some r"
  shows "\<exists>gen. r = set_child_elements (set_value e (first_chunk T e v))
                      (kept_children T e @ gen)
     \<and> (\<forall>c \<in> set gen. chunk_child T e (GEDCOM_TAG_CONCATENATION T) c
                      \<or> chunk_child T e (GEDCOM_TAG_CONTINUED T) c)
     \<and> (wf_tags T \<longrightarrow>
          foldl (get_multi_line_value_step T) (first_chunk T e v, e_crlf e) gen =
            (str_join (e_crlf e) (splitlines v), e_crlf e))"
proof (cases "splitlines v")
  case Nil
  with ret have "r = set_child_elements (set_value e []) (kept_children T e)"
    by (simp add: set_multi_line_value_unfold)
  with Nil show ?thesis
    by (intro exI [of _ "[]"]) (simp add: first_chunk_def)
next
  case (Cons line lines)
  define n where "n = line_length T (set_value e []) line"
  define self1 where
    "self1 = set_child_elements (set_value e (first_chunk T e v)) (kept_children T e)"
  have fc: "first_chunk T e v = take n line"
    by (simp add: first_chunk_def Cons n_def)
  from ret Cons obtain self2 where
    loop: "add_concatenation_loop T self1 (drop n line) 0 = Some self2"
    and rest: "set_multi_line_value_lines T self2 lines = Some r"
    by (auto simp: set_multi_line_value_unfold self1_def n_def split: option.splits)
  from add_concatenation_loop_result [OF loop] obtain gen1 where
    self2: "self2 = set_child_elements self1 (kept_children T e @ gen1)"
    and ch1: "\<forall>x \<in> set gen1. chunk_child T e (GEDCOM_TAG_CONCATENATION T) x"
    and cat1: "concat (map e_value gen1) = drop n line"
    by (auto simp: self1_def)
  from set_multi_line_value_lines_result [OF rest] obtain gen2 where
    r: "r = set_child_elements self1 (kept_children T e @ gen1 @ gen2)"
    and ch2: "\<forall>x \<in> set gen2. chunk_child T e (GEDCOM_TAG_CONCATENATION T) x
                      \<or> chunk_child T e (GEDCOM_TAG_CONTINUED T) x"
    and j2: "wf_tags T \<longrightarrow>
          (\<forall>res. foldl (get_multi_line_value_step T) (res, e_crlf e) gen2 =
                 (res @ concat (map (\<lambda>l. e_crlf e @ l) lines), e_crlf e))"
    by (auto simp: self2 self1_def)
  have j: "foldl (get_multi_line_value_step T) (first_chunk T e v, e_crlf e) (gen1 @ gen2) =
            (str_join (e_crlf e) (splitlines v), e_crlf e)" if wf: "wf_tags T"
  proof -
    have "foldl (get_multi_line_value_step T) (take n line, e_crlf e) gen1 =
        (take n line @ drop n line, e_crlf e)"
      by (simp add: foldl_step_concatenation [OF wf ch1] cat1)
    with j2 wf show ?thesis
      by (simp add: fc Cons str_join_Cons)
  qed
  show ?thesis
    using r ch1 ch2 j by (intro exI [of _ "gen1 @ gen2"]) (auto simp: self1_def)
qed

lemma get_multi_line_value_set:
  assumes wf: "wf_tags T" and ret: "set_multi_line_value T e v = Some r"
  shows "get_multi_line_value T r = str_join (e_crlf e) (splitlines v)"
proof -
  from set_multi_line_value_result [OF ret] wf obtain gen where
    r: "r = set_child_elements (set_value e (first_chunk T e v)) (kept_children T e @ gen)"
    and j: "foldl (get_multi_line_value_step T) (first_chunk T e v, e_crlf e) gen =
            (str_join (e_crlf e) (splitlines v), e_crlf e)"
    by auto
  show ?thesis
    by (simp add: get_multi_line_value_def r get_value_def get_child_elements_def
          foldl_step_kept j)
qed

lemma set_multi_line_value_lines_returns:
  "0 < child_budget T self (GEDCOM_TAG_CONCATENATION T) \<Longrightarrow>
   \<exists>r. set_multi_line_value_lines T self lines = Some r"
proof (induction lines arbitrary: self)
  case Nil
  then show ?case by simp
next
  case (Cons line lines)
  obtain self1 n where abc: "add_bounded_child T self (GEDCOM_TAG_CONTINUED T) line = (self1, n)"
    by (cases "add_bounded_child T self (GEDCOM_TAG_CONTINUED T) line")
  then have b1: "0 < child_budget T self1 (GEDCOM_TAG_CONCATENATION T)"
    using Cons.prems by (auto simp: add_bounded_child_eq)
  from add_concatenation_loop_returns [OF b1] obtain self2 where
    loop: "add_concatenation_loop T self1 (drop n line) 0 = Some self2" by blast
  from add_concatenation_loop_result [OF loop] b1
  have "0 < child_budget T self2 (GEDCOM_TAG_CONCATENATION T)" by auto
  from Cons.IH [OF this] abc loop show ?case
    by (simp add: add_concatenation_def)
qed

lemma set_multi_line_value_returns:
  assumes "0 < child_budget T e (GEDCOM_TAG_CONCATENATION T)"
  shows "\<exists>r. set_multi_line_value T e v = Some r"
proof (cases "splitlines v")
  case Nil
  then show ?thesis by (simp add: set_multi_line_value_unfold)
next
  case (Cons line lines)
  define self1 where
    "self1 = set_child_elements (set_value e (first_chunk T e v)) (kept_children T e)"
  have b1: "0 < child_budget T self1 (GEDCOM_TAG_CONCATENATION T)"
    using assms by (simp add: self1_def)
  from add_concatenation_loop_returns [OF b1] obtain self2 where
    loop: "add_concatenation_loop T self1
             (drop (line_length T (set_value e []) line) line) 0 = Some self2" by blast
  from add_concatenation_loop_result [OF loop] b1
  have "0 < child_budget T self2 (GEDCOM_TAG_CONCATENATION T)" by auto
  from set_multi_line_value_lines_returns [OF this, of lines] loop Cons show ?thesis
    by (simp add: set_multi_line_value_unfold self1_def)
qed

lemma set_multi_line_value_diverges:
  assumes "child_budget T e (GEDCOM_TAG_CONCATENATION T) = 0"
    and "splitlines v = line # lines"
    and "line_length T (set_value e []) line < length line"
  shows "set_multi_line_value T e v = None"
  using assms
  by (simp add: set_multi_line_value_unfold add_concatenation_loop_diverges)

section \<open>Lines, first chunk and the length of a rendered line\<close>

lemma splitlines_no_break:
  "\<forall>c \<in> set v. \<not> is_linebreak c \<Longrightarrow> splitlines v = (if v = [] then [] else [v])"
  by (subst splitlines.simps) (simp add: Let_def)

lemma splitlines_first:
  "v \<noteq> [] \<Longrightarrow> \<exists>rest. splitlines v = takeWhile (\<lambda>c. \<not> is_linebreak c) v # rest"
  by (subst splitlines.simps) (simp add: Let_def)

lemma first_chunk_le_available:
  "length (first_chunk T e v) \<le> available_characters T (set_value e [])"
  by (auto simp: first_chunk_def split: list.splits
        intro: min.coboundedI2 line_length_le_available)

lemma first_chunk_no_break:
  "\<forall>c \<in> set v. \<not> is_linebreak c \<Longrightarrow>
   first_chunk T e v = take (line_length T (set_value e []) v) v"
  by (simp add: first_chunk_def splitlines_no_break)

lemma first_chunk_shorter:
  assumes "(\<exists>c \<in> set v. is_linebreak c) \<or> available_characters T (set_value e []) < length v"
  shows "length (first_chunk T e v) < length v"
proof (cases "\<exists>c \<in> set v. is_linebreak c")
  case True
  then have ne: "v \<noteq> []" by auto
  from True have "length (takeWhile (\<lambda>c. \<not> is_linebreak c) v) < length v"
    by (induction v) auto
  moreover from splitlines_first [OF ne] obtain rest where
    "splitlines v = takeWhile (\<lambda>c. \<not> is_linebreak c) v # rest" by blast
  ultimately show ?thesis by (simp add: first_chunk_def)
next
  case False
  with assms have "available_characters T (set_value e []) < length v" by simp
  with first_chunk_le_available [of T e v] show ?thesis by simp
qed

lemma line_chars_bounded:
  assumes "length (e_value n) \<le> available_characters T (set_value n [])"
    and "e_crlf n \<noteq> []" and "length (render_prefix T n) \<le> 255"
  shows "line_chars T n \<le> 255"
proof (cases "e_level n < 0")
  case True
  then show ?thesis by (simp add: line_chars_def to_gedcom_string_line)
next
  case False
  from assms(2) have crlf: "0 < length (e_crlf n)" by simp
  from False have av: "available_characters T (set_value n []) =
      255 - (length (render_prefix T n) + length (e_crlf n))"
    by (auto simp add: available_characters_eq to_gedcom_string_line render_prefix_def
          get_level_def get_pointer_def)
  from False have lc: "line_chars T n =
      length (render_prefix T n) + (if e_value n = [] then 0 else 1 + length (e_value n))"
    by (simp add: line_chars_def to_gedcom_string_line render_prefix_def
          get_level_def get_pointer_def)
  show ?thesis
  proof (cases "e_value n = []")
    case True
    with lc assms(3) show ?thesis by simp
  next
    case False
    then have pos: "0 < length (e_value n)" by simp
    from assms(1) av have "length (e_value n)
        \<le> 255 - (length (render_prefix T n) + length (e_crlf n))" by simp
    with pos crlf have "length (render_prefix T n) + (1 + length (e_value n)) \<le> 255"
      by arith
    with lc False show ?thesis by simp
  qed
qed

lemma chunk_child_bounded:
  "chunk_child T self tag c \<Longrightarrow> length (e_value c) \<le> available_characters T (set_value c [])"
  by (auto simp: chunk_child_def child_budget_def child_of_def set_value_def)

lemma chunk_child_fields:
  "chunk_child T self tag c \<Longrightarrow>
   e_cls c = class_of_tag T tag \<and> e_level c = e_level self + 1 \<and> e_pointer c = []
   \<and> e_tag c = tag \<and> e_crlf c = e_crlf self \<and> e_children c = []"
  by (auto simp: chunk_child_def child_of_def)

lemma generated_children_result:
  "r = set_child_elements e' (kept_children T e @ gen) \<Longrightarrow> generated_children T e r = gen"
  by (simp add: generated_children_def)

section \<open>The generated children do not depend on the children the node had\<close>

lemma child_of_cong:
  "e_level self' = e_level self \<Longrightarrow> e_crlf self' = e_crlf self \<Longrightarrow>
   child_of T self' tag = child_of T self tag"
  by (simp add: child_of_def)

lemma add_concatenation_loop_transfer:
  assumes ret: "add_concatenation_loop T self string index = Some r"
  shows "\<exists>gen. r = set_child_elements self (e_children self @ gen)
     \<and> (\<forall>self'. e_level self' = e_level self \<and> e_crlf self' = e_crlf self \<longrightarrow>
            add_concatenation_loop T self' string index =
              Some (set_child_elements self' (e_children self' @ gen)))"
proof (rule add_concatenation_loop.raw_induct
    [where P = "\<lambda>T self string index r.
       \<exists>gen. r = set_child_elements self (e_children self @ gen)
         \<and> (\<forall>self'. e_level self' = e_level self \<and> e_crlf self' = e_crlf self \<longrightarrow>
            add_concatenation_loop T self' string index =
              Some (set_child_elements self' (e_children self' @ gen)))", OF _ ret])
  fix f T self string index r
  assume IH: "\<And>T self string index r. f T self string index = Some r \<Longrightarrow>
       \<exists>gen. r = set_child_elements self (e_children self @ gen)
         \<and> (\<forall>self'. e_level self' = e_level self \<and> e_crlf self' = e_crlf self \<longrightarrow>
            add_concatenation_loop T self' string index =
              Some (set_child_elements self' (e_children self' @ gen)))"
    and eq: "(if index < length string
      then f T
             (fst (add_bounded_child T self (GEDCOM_TAG_CONCATENATION T) (drop index string)))
             string
             (index + snd (add_bounded_child T self (GEDCOM_TAG_CONCATENATION T)
                                             (drop index string)))
      else Some self) = Some r"
  define tag where "tag = GEDCOM_TAG_CONCATENATION T"
  define n where "n = line_length T (child_of T self tag) (drop index string)"
  define c where "c = set_value (child_of T self tag) (take n (drop index string))"
  show "\<exists>gen. r = set_child_elements self (e_children self @ gen)
         \<and> (\<forall>self'. e_level self' = e_level self \<and> e_crlf self' = e_crlf self \<longrightarrow>
            add_concatenation_loop T self' string index =
              Some (set_child_elements self' (e_children self' @ gen)))"
  proof (cases "index < length string")
    case False
    with eq have "r = self" by simp
    with False show ?thesis
      by (intro exI [of _ "[]"]) (simp add: add_concatenation_loop_fits)
  next
    case True
    with eq have "f T (set_child_elements self (e_children self @ [c])) string (index + n) = Some r"
      by (simp add: add_bounded_child_eq tag_def n_def c_def)
    from IH [OF this] obtain gen where
      r: "r = set_child_elements self (e_children self @ c # gen)"
      and tr: "\<And>self''. e_level self'' = e_level self \<Longrightarrow> e_crlf self'' = e_crlf self \<Longrightarrow>
            add_concatenation_loop T self'' string (index + n) =
              Some (set_child_elements self'' (e_children self'' @ gen))"
      by auto
    have "add_concatenation_loop T self' string index =
            Some (set_child_elements self' (e_children self' @ c # gen))"
      if same: "e_level self' = e_level self" "e_crlf self' = e_crlf self" for self'
    proof -
      have co: "child_of T self' tag = child_of T self tag"
        using same by (rule child_of_cong)
      have "add_concatenation_loop T self' string index =
          add_concatenation_loop T (set_child_elements self' (e_children self' @ [c]))
            string (index + n)"
        using True
        by (subst add_concatenation_loop.simps)
           (simp add: add_bounded_child_eq co [unfolded tag_def] tag_def n_def c_def)
      also have "\<dots> = Some (set_child_elements (set_child_elements self' (e_children self' @ [c]))
            (e_children (set_child_elements self' (e_children self' @ [c])) @ gen))"
        by (rule tr) (simp_all add: same)
      finally show ?thesis by simp
    qed
    with r show ?thesis by (intro exI [of _ "c # gen"]) simp
  qed
qed

lemma set_multi_line_value_lines_transfer:
  "set_multi_line_value_lines T self lines = Some r \<Longrightarrow>
   \<exists>gen. r = set_child_elements self (e_children self @ gen)
     \<and> (\<forall>self'. e_level self' = e_level self \<and> e_crlf self' = e_crlf self \<longrightarrow>
            set_multi_line_value_lines T self' lines =
              Some (set_child_elements self' (e_children self' @ gen)))"
proof (induction lines arbitrary: self r)
  case Nil
  then show ?case by (intro exI [of _ "[]"]) simp
next
  case (Cons line lines)
  define tag where "tag = GEDCOM_TAG_CONTINUED T"
  define n where "n = line_length T (child_of T self tag) line"
  define c where "c = set_value (child_of T self tag) (take n line)"
  define self1 where "self1 = set_child_elements self (e_children self @ [c])"
  have abc: "add_bounded_child T self (GEDCOM_TAG_CONTINUED T) line = (self1, n)"
    by (simp add: add_bounded_child_eq self1_def c_def n_def tag_def)
  from Cons.prems obtain self2 where
    loop: "add_concatenation_loop T self1 (drop n line) 0 = Some self2"
    and rest: "set_multi_line_value_lines T self2 lines = Some r"
    by (auto simp: abc add_concatenation_def split: option.splits)
  from add_concatenation_loop_transfer [OF loop] obtain gen1 where
    self2: "self2 = set_child_elements self (e_children self @ c # gen1)"
    and tr1: "\<And>s'. e_level s' = e_level self \<Longrightarrow> e_crlf s' = e_crlf self \<Longrightarrow>
            add_concatenation_loop T s' (drop n line) 0 =
              Some (set_child_elements s' (e_children s' @ gen1))"
    by (auto simp: self1_def)
  from Cons.IH [OF rest] obtain gen2 where
    r: "r = set_child_elements self (e_children self @ c # gen1 @ gen2)"
    and tr2: "\<And>s'. e_level s' = e_level self \<Longrightarrow> e_crlf s' = e_crlf self \<Longrightarrow>
            set_multi_line_value_lines T s' lines =
              Some (set_child_elements s' (e_children s' @ gen2))"
    by (auto simp: self2)
  have "set_multi_line_value_lines T self' (line # lines) =
          Some (set_child_elements self' (e_children self' @ c # gen1 @ gen2))"
    if same: "e_level self' = e_level self" "e_crlf self' = e_crlf self" for self'
  proof -
    have co: "child_of T self' tag = child_of T self tag"
      using same by (rule child_of_cong)
    have abc': "add_bounded_child T self' (GEDCOM_TAG_CONTINUED T) line =
        (set_child_elements self' (e_children self' @ [c]), n)"
      by (simp add: add_bounded_child_eq co [unfolded tag_def] c_def n_def tag_def)
    have l1: "add_concatenation_loop T (set_child_elements self' (e_children self' @ [c]))
          (drop n line) 0 = Some (set_child_elements self' (e_children self' @ c # gen1))"
      using tr1 [of "set_child_elements self' (e_children self' @ [c])"] same by simp
    have l2: "set_multi_line_value_lines T
          (set_child_elements self' (e_children self' @ c # gen1)) lines =
          Some (set_child_elements self' (e_children self' @ c # gen1 @ gen2))"
      using tr2 [of "set_child_elements self' (e_children self' @ c # gen1)"] same by simp
    show ?thesis by (simp add: abc' add_concatenation_def l1 l2)
  qed
  with r show ?case by (intro exI [of _ "c # gen1 @ gen2"]) simp
qed

lemma first_chunk_set_child_elements [simp]:
  "first_chunk T (set_child_elements e cs) v = first_chunk T e v"
  by (simp add: first_chunk_def set_value_set_child_elements split: list.splits)

lemma kept_children_set_child_elements_Nil [simp]:
  "kept_children T (set_child_elements e []) = []"
  by (simp add: kept_children_def)

lemma set_multi_line_value_transfer:
  assumes ret: "set_multi_line_value T e v = Some r"
  shows "\<exists>gen. r = set_child_elements (set_value e (first_chunk T e v))
                      (kept_children T e @ gen)
     \<and> set_multi_line_value T (set_child_elements e []) v =
         Some (set_child_elements (set_value e (first_chunk T e v)) gen)"
proof (cases "splitlines v")
  case Nil
  with ret show ?thesis
    by (intro exI [of _ "[]"])
       (simp add: set_multi_line_value_unfold first_chunk_def set_value_set_child_elements)
next
  case (Cons line lines)
  define n where "n = line_length T (set_value e []) line"
  define self0 where "self0 = set_value e (first_chunk T e v)"
  from ret Cons obtain self2 where
    loop: "add_concatenation_loop T (set_child_elements self0 (kept_children T e))
             (drop n line) 0 = Some self2"
    and rest: "set_multi_line_value_lines T self2 lines = Some r"
    by (auto simp: set_multi_line_value_unfold self0_def n_def split: option.splits)
  from add_concatenation_loop_transfer [OF loop] obtain gen1 where
    self2: "self2 = set_child_elements self0 (kept_children T e @ gen1)"
    and tr1: "\<And>s'. e_level s' = e_level e \<Longrightarrow> e_crlf s' = e_crlf e \<Longrightarrow>
            add_concatenation_loop T s' (drop n line) 0 =
              Some (set_child_elements s' (e_children s' @ gen1))"
    by (auto simp: self0_def)
  from set_multi_line_value_lines_transfer [OF rest] obtain gen2 where
    r: "r = set_child_elements self0 (kept_children T e @ gen1 @ gen2)"
    and tr2: "\<And>s'. e_level s' = e_level e \<Longrightarrow> e_crlf s' = e_crlf e \<Longrightarrow>
            set_multi_line_value_lines T s' lines =
              Some (set_child_elements s' (e_children s' @ gen2))"
    by (auto simp: self2 self0_def)
  have l1: "add_concatenation_loop T (set_child_elements self0 []) (drop n line) 0 =
      Some (set_child_elements self0 gen1)"
    using tr1 [of "set_child_elements self0 []"] by (simp add: self0_def)
  have l2: "set_multi_line_value_lines T (set_child_elements self0 gen1) lines =
      Some (set_child_elements self0 (gen1 @ gen2))"
    using tr2 [of "set_child_elements self0 gen1"] by (simp add: self0_def)
  have "set_multi_line_value T (set_child_elements e []) v =
      Some (set_child_elements self0 (gen1 @ gen2))"
    using l1 l2
    by (simp add: set_multi_line_value_unfold Cons set_value_set_child_elements
          self0_def n_def)
  with r show ?thesis
    by (intro exI [of _ "gen1 @ gen2"]) (simp add: self0_def)
qed

section \<open>Concrete evaluations\<close>

lemma wf_tags_gedcom55: "wf_tags gedcom55"
  by (simp add: wf_tags_def record_tags_def gedcom55_def py_def)

lemma class_of_tag_gedcom55:
  "class_of_tag gedcom55 (GEDCOM_TAG_CONCATENATION gedcom55) = Element"
  "class_of_tag gedcom55 (GEDCOM_TAG_CONTINUED gedcom55) = Element"
  using wf_tags_gedcom55 by (simp_all add: wf_tags_def class_of_tag_Element)

lemma tags_gedcom55:
  "GEDCOM_TAG_CONCATENATION gedcom55 = py ''CONC''"
  "GEDCOM_TAG_CONTINUED gedcom55 = py ''CONT''"
  by (simp_all add: gedcom55_def)

lemma str_int_small: "str_int 0 = [48]" "str_int 1 = [49]"
  by (simp_all add: str_int_def digits.simps)

lemma trailing_spaces_replicate:
  "trailing_spaces (replicate k c) = (if c = SP then k else 0)"
  by (cases k) (simp_all add: trailing_spaces_def replicate_append_same)

lemma add_concatenation_loop_step:
  "index < length string \<Longrightarrow>
   add_concatenation_loop T self string index =
     add_concatenation_loop T
       (set_child_elements self (e_children self @
          [set_value (child_of T self (GEDCOM_TAG_CONCATENATION T))
             (take (line_length T (child_of T self (GEDCOM_TAG_CONCATENATION T))
                      (drop index string)) (drop index string))]))
       string
       (index + line_length T (child_of T self (GEDCOM_TAG_CONCATENATION T))
                  (drop index string))"
  by (subst add_concatenation_loop.simps) (simp add: add_bounded_child_eq)

lemma child_of_gedcom55:
  "child_of gedcom55 (Elem k 0 p t v crlf cs) (py ''CONC'') =
     Elem Element 1 [] (py ''CONC'') [] crlf []"
  using class_of_tag_gedcom55 by (simp add: child_of_def tags_gedcom55)

lemma available_note_node:
  "available_characters gedcom55 (Elem Element 0 [] (py ''NOTE'') [] [10] cs) = 248"
  by (simp add: available_characters_def to_gedcom_string_line get_tag_def py_def str_int_small)

lemma available_conc_child:
  "available_characters gedcom55 (Elem Element 1 [] (py ''CONC'') [] [10] cs) = 248"
  by (simp add: available_characters_def to_gedcom_string_line get_tag_def py_def str_int_small)

lemma line_length_replicate_a:
  "line_length T e (replicate k 97) = min k (available_characters T e)"
  by (simp add: line_length_eq trailing_spaces_replicate min_def)

lemma not_linebreak_a: "\<forall>c \<in> set (replicate k 97). \<not> is_linebreak c"
  by (simp add: is_linebreak_def)

lemma set_multi_line_value_600:
  "set_multi_line_value gedcom55 note_node (replicate 600 97) =
     Some (Elem Element 0 [] (py ''NOTE'') (replicate 248 97) [10]
             [Elem Element 1 [] (py ''CONC'') (replicate 248 97) [10] [],
              Elem Element 1 [] (py ''CONC'') (replicate 104 97) [10] []])"
proof -
  have sl: "splitlines (replicate 600 97) = [replicate 600 97]"
    using splitlines_no_break [OF not_linebreak_a, of 600] by simp
  have fc: "first_chunk gedcom55 note_node (replicate 600 97) = replicate 248 97"
    by (simp add: first_chunk_def sl line_length_replicate_a note_node_def set_value_def
          available_note_node)
  have k: "kept_children gedcom55 note_node = []"
    by (simp add: kept_children_def note_node_def)
  have n: "line_length gedcom55 (set_value note_node []) (replicate 600 97) = 248"
    by (simp add: line_length_replicate_a note_node_def set_value_def available_note_node)
  have l: "add_concatenation_loop gedcom55
       (Elem Element 0 [] (py ''NOTE'') (replicate 248 97) [10] []) (replicate 352 97) 0 =
     Some (Elem Element 0 [] (py ''NOTE'') (replicate 248 97) [10]
             [Elem Element 1 [] (py ''CONC'') (replicate 248 97) [10] [],
              Elem Element 1 [] (py ''CONC'') (replicate 104 97) [10] []])"
    apply (subst add_concatenation_loop_step, simp)
    apply (simp add: tags_gedcom55 child_of_gedcom55 line_length_replicate_a
        available_conc_child set_child_elements_def set_value_def)
    apply (subst add_concatenation_loop_step, simp)
    apply (simp add: tags_gedcom55 child_of_gedcom55 line_length_replicate_a
        available_conc_child set_child_elements_def set_value_def)
    apply (simp add: add_concatenation_loop_fits)
    done
  show ?thesis
    by (simp add: set_multi_line_value_unfold sl fc k n)
       (simp add: note_node_def set_value_def set_child_elements_def l)
qed

section \<open>The constructor and further evaluations\<close>

lemma length_py [simp]: "length (py s) = length s"
  by (simp add: py_def)

lemma kept_children_set_value [simp]:
  "kept_children T (set_value e w) = kept_children T e"
  by (simp add: kept_children_def)

lemma first_chunk_set_value [simp]:
  "first_chunk T (set_value e w) v = first_chunk T e v"
  by (simp add: first_chunk_def split: list.splits)

lemma set_multi_line_value_set_value [simp]:
  "set_multi_line_value T (set_value e w) v = set_multi_line_value T e v"
  by (simp add: set_multi_line_value_unfold cong: list.case_cong)

lemma splitlines_Nil [simp]: "splitlines [] = []"
  by (subst splitlines.simps) simp

lemma set_multi_line_value_empty:
  "set_multi_line_value T e [] = Some (set_child_elements (set_value e []) (kept_children T e))"
  by (simp add: set_multi_line_value_unfold)

lemma new_child_element_default:
  "new_child_element T self tag [] [] = Some (new_child_element_tag T self tag)"
  by (simp add: new_child_element_def element_init_def set_multi_line_value_empty
        new_child_element_tag_def kept_children_def set_value_def set_child_elements_def
        Let_def)

lemma element_init_multi_line:
  "element_init T k level pointer tag v crlf True =
     set_multi_line_value T (Elem k level pointer tag [] crlf []) v"
proof -
  have "Elem k level pointer tag v crlf [] = set_value (Elem k level pointer tag [] crlf []) v"
    by (simp add: set_value_def)
  then show ?thesis by (simp add: element_init_def)
qed

lemma splitlines_a_newline: "splitlines (py ''a'' @ [10]) = [py ''a'']"
  by (subst splitlines.simps) (simp add: py_def is_linebreak_def)

lemma set_multi_line_value_a_newline:
  "set_multi_line_value gedcom55 note_node (py ''a'' @ [10]) =
     Some (Elem Element 0 [] (py ''NOTE'') (py ''a'') [10] [])"
proof -
  have n: "line_length gedcom55 (set_value note_node []) (py ''a'') = 1"
    by (simp add: line_length_eq note_node_def set_value_def available_note_node)
  have fc: "first_chunk gedcom55 note_node (py ''a'' @ [10]) = py ''a''"
    by (simp add: first_chunk_def splitlines_a_newline n)
  have k: "kept_children gedcom55 note_node = []"
    by (simp add: kept_children_def note_node_def)
  have d: "drop (Suc 0) (py ''a'') = []" by (simp add: py_def)
  show ?thesis
    by (simp add: set_multi_line_value_unfold splitlines_a_newline fc k n d
          add_concatenation_loop_fits)
       (simp add: note_node_def set_value_def set_child_elements_def)
qed

lemma available_bare_node:
  "available_characters gedcom55 (Elem Element 0 [] (py ''NOTE'') [] [] cs) = 249"
  by (simp add: available_characters_def to_gedcom_string_line get_tag_def py_def str_int_small)

lemma available_bare_child:
  "available_characters gedcom55 (Elem Element 1 [] (py ''CONC'') [] [] cs) = 249"
  by (simp add: available_characters_def to_gedcom_string_line get_tag_def py_def str_int_small)

lemma set_multi_line_value_300_bare:
  "set_multi_line_value gedcom55 bare_node (replicate 300 97) =
     Some (Elem Element 0 [] (py ''NOTE'') (replicate 249 97) []
             [Elem Element 1 [] (py ''CONC'') (replicate 51 97) [] []])"
proof -
  have sl: "splitlines (replicate 300 97) = [replicate 300 97]"
    using splitlines_no_break [OF not_linebreak_a, of 300] by simp
  have fc: "first_chunk gedcom55 bare_node (replicate 300 97) = replicate 249 97"
    by (simp add: first_chunk_def sl line_length_replicate_a bare_node_def set_value_def
          available_bare_node)
  have k: "kept_children gedcom55 bare_node = []"
    by (simp add: kept_children_def bare_node_def)
  have n: "line_length gedcom55 (set_value bare_node []) (replicate 300 97) = 249"
    by (simp add: line_length_replicate_a bare_node_def set_value_def available_bare_node)
  have l: "add_concatenation_loop gedcom55
       (Elem Element 0 [] (py ''NOTE'') (replicate 249 97) [] []) (replicate 51 97) 0 =
     Some (Elem Element 0 [] (py ''NOTE'') (replicate 249 97) []
             [Elem Element 1 [] (py ''CONC'') (replicate 51 97) [] []])"
    apply (subst add_concatenation_loop_step, simp)
    apply (simp add: tags_gedcom55 child_of_gedcom55 line_length_replicate_a
        available_bare_child set_child_elements_def set_value_def)
    apply (simp add: add_concatenation_loop_fits)
    done
  show ?thesis
    by (simp add: set_multi_line_value_unfold sl fc k n)
       (simp add: bare_node_def set_value_def set_child_elements_def l)
qed

lemma child_budget_note_node:
  "child_budget gedcom55 note_node (GEDCOM_TAG_CONCATENATION gedcom55) = 248"
  by (simp add: child_budget_def note_node_def tags_gedcom55 child_of_gedcom55
        available_conc_child)

lemma available_wide_node:
  "available_characters gedcom55 (Elem Element 0 [] (py ''NOTE'') [] (replicate 249 10) cs) = 0"
  by (simp add: available_characters_def to_gedcom_string_line get_tag_def py_def str_int_small)

lemma available_wide_child:
  "available_characters gedcom55 (Elem Element 1 [] (py ''CONC'') [] (replicate 249 10) cs) = 0"
  by (simp add: available_characters_def to_gedcom_string_line get_tag_def py_def str_int_small)

lemma child_budget_wide_node:
  "child_budget gedcom55 wide_node (GEDCOM_TAG_CONCATENATION gedcom55) = 0"
  by (simp add: child_budget_def wide_node_def tags_gedcom55 child_of_gedcom55
        available_wide_child)

lemma splitlines_a: "splitlines (py ''a'') = [py ''a'']"
  by (subst splitlines.simps) (simp add: py_def is_linebreak_def)

lemma set_multi_line_value_wide:
  "set_multi_line_value gedcom55 wide_node (py ''a'') = None"
proof (rule set_multi_line_value_diverges [OF child_budget_wide_node splitlines_a])
  have "line_length gedcom55 (set_value wide_node []) (py ''a'') = 0"
    using line_length_le_available [of gedcom55 "set_value wide_node []" "py ''a''"]
    by (simp add: wide_node_def set_value_def available_wide_node)
  then show "line_length gedcom55 (set_value wide_node []) (py ''a'') < length (py ''a'')"
    by (simp add: py_def)
qed

lemma set_multi_line_value_stale:
  "set_multi_line_value gedcom55 stale_node (py ''new'') =
     Some (Elem Element 0 [] (py ''NOTE'') (py ''new'') [10]
             [Elem Element 1 [] (py ''DATE'') (py ''1900'') [10] []])"
proof -
  have sl: "splitlines (py ''new'') = [py ''new'']"
    by (subst splitlines.simps) (simp add: py_def is_linebreak_def)
  have n: "line_length gedcom55 (set_value stale_node []) (py ''new'') = 3"
    by (simp add: line_length_eq stale_node_def set_value_def available_note_node)
  have fc: "first_chunk gedcom55 stale_node (py ''new'') = py ''new''"
    by (simp add: first_chunk_def sl n)
  have k: "kept_children gedcom55 stale_node =
      [Elem Element 1 [] (py ''DATE'') (py ''1900'') [10] []]"
    by (simp add: kept_children_def stale_node_def get_tag_def tags_gedcom55 py_def)
  have d: "drop 3 (py ''new'') = []" by (simp add: py_def)
  show ?thesis
    by (simp add: set_multi_line_value_unfold sl fc k n d add_concatenation_loop_fits)
       (simp add: stale_node_def set_value_def set_child_elements_def)
qed

section \<open>Which children hold which line\<close>

lemma set_multi_line_value_lines_groups:
  "set_multi_line_value_lines T self lines = Some r \<Longrightarrow>
   \<exists>groups. r = set_child_elements self (e_children self @ concat groups)
     \<and> list_all2 (holds_line T) lines groups"
proof (induction lines arbitrary: self r)
  case Nil
  then show ?case by (intro exI [of _ "[]"]) simp
next
  case (Cons line lines)
  define tag where "tag = GEDCOM_TAG_CONTINUED T"
  define n where "n = line_length T (child_of T self tag) line"
  define c where "c = set_value (child_of T self tag) (take n line)"
  define self1 where "self1 = set_child_elements self (e_children self @ [c])"
  have abc: "add_bounded_child T self (GEDCOM_TAG_CONTINUED T) line = (self1, n)"
    by (simp add: add_bounded_child_eq self1_def c_def n_def tag_def)
  from Cons.prems obtain self2 where
    loop: "add_concatenation_loop T self1 (drop n line) 0 = Some self2"
    and rest: "set_multi_line_value_lines T self2 lines = Some r"
    by (auto simp: abc add_concatenation_def split: option.splits)
  from add_concatenation_loop_result [OF loop] obtain gen1 where
    self2: "self2 = set_child_elements self (e_children self @ c # gen1)"
    and ch1: "\<forall>x \<in> set gen1. chunk_child T self (GEDCOM_TAG_CONCATENATION T) x"
    and cat1: "concat (map e_value gen1) = drop n line"
    by (auto simp: self1_def)
  from Cons.IH [OF rest] obtain groups where
    r: "r = set_child_elements self (e_children self @ (c # gen1) @ concat groups)"
    and gs: "list_all2 (holds_line T) lines groups"
    by (auto simp: self2)
  have "\<forall>x \<in> set gen1. e_tag x = GEDCOM_TAG_CONCATENATION T"
    using ch1 chunk_child_fields [of T self "GEDCOM_TAG_CONCATENATION T"] by blast
  moreover have "e_tag c = GEDCOM_TAG_CONTINUED T"
    by (simp add: c_def child_of_def tag_def)
  moreover have "concat (map e_value (c # gen1)) = line"
    by (simp add: c_def cat1)
  ultimately have "holds_line T line (c # gen1)"
    unfolding holds_line_def by blast
  with r gs show ?case
    by (intro exI [of _ "(c # gen1) # groups"]) simp
qed

lemma set_multi_line_value_groups:
  assumes ret: "set_multi_line_value T e v = Some r"
    and sl: "splitlines v = line # lines"
  shows "\<exists>concs groups.
      r = set_child_elements (set_value e (take (line_length T (set_value e []) line) line))
            (kept_children T e @ concs @ concat groups)
      \<and> (\<forall>x \<in> set concs. e_tag x = GEDCOM_TAG_CONCATENATION T)
      \<and> concat (map e_value concs) = drop (line_length T (set_value e []) line) line
      \<and> list_all2 (holds_line T) lines groups"
proof -
  define n where "n = line_length T (set_value e []) line"
  define self1 where
    "self1 = set_child_elements (set_value e (take n line)) (kept_children T e)"
  have fc: "first_chunk T e v = take n line"
    by (simp add: first_chunk_def sl n_def)
  from ret sl obtain self2 where
    loop: "add_concatenation_loop T self1 (drop n line) 0 = Some self2"
    and rest: "set_multi_line_value_lines T self2 lines = Some r"
    by (auto simp: set_multi_line_value_unfold fc self1_def n_def split: option.splits)
  from add_concatenation_loop_result [OF loop] obtain concs where
    self2: "self2 = set_child_elements self1 (kept_children T e @ concs)"
    and ch1: "\<forall>x \<in> set concs. chunk_child T e (GEDCOM_TAG_CONCATENATION T) x"
    and cat1: "concat (map e_value concs) = drop n line"
    by (auto simp: self1_def)
  from set_multi_line_value_lines_groups [OF rest] obtain groups where
    r: "r = set_child_elements self1 (kept_children T e @ concs @ concat groups)"
    and gs: "list_all2 (holds_line T) lines groups"
    by (auto simp: self2 self1_def)
  have "\<forall>x \<in> set concs. e_tag x = GEDCOM_TAG_CONCATENATION T"
    using ch1 chunk_child_fields [of T e "GEDCOM_TAG_CONCATENATION T"] by blast
  with r gs cat1 show ?thesis
    by (intro exI [of _ concs] exI [of _ groups]) (simp add: self1_def n_def)
qed

lemma child_of_gedcom55_continued:
  "child_of gedcom55 (Elem k 0 p t v crlf cs) (py ''CONT'') =
     Elem Element 1 [] (py ''CONT'') [] crlf []"
  using class_of_tag_gedcom55 by (simp add: child_of_def tags_gedcom55)

lemma available_cont_child:
  "available_characters gedcom55 (Elem Element 1 [] (py ''CONT'') [] [10] cs) = 248"
  by (simp add: available_characters_def to_gedcom_string_line get_tag_def py_def str_int_small)

lemma splitlines_bc: "splitlines (py ''bc'') = [py ''bc'']"
  by (subst splitlines.simps) (simp add: py_def is_linebreak_def)

lemma splitlines_line_break:
  assumes nb: "\<forall>c \<in> set l. \<not> is_linebreak c" and lb: "is_linebreak b"
    and b: "b \<noteq> 13" and rest: "rest \<noteq> []"
  shows "splitlines (l @ b # rest) = l # splitlines rest"
proof -
  have "takeWhile (\<lambda>c. \<not> is_linebreak c) (l @ b # rest) =
      l @ takeWhile (\<lambda>c. \<not> is_linebreak c) (b # rest)"
    using nb by (intro takeWhile_append2) simp
  with lb have tw: "takeWhile (\<lambda>c. \<not> is_linebreak c) (l @ b # rest) = l" by simp
  have "dropWhile (\<lambda>c. \<not> is_linebreak c) (l @ b # rest) =
      dropWhile (\<lambda>c. \<not> is_linebreak c) (b # rest)"
    using nb by (intro dropWhile_append2) simp
  with lb have dw: "dropWhile (\<lambda>c. \<not> is_linebreak c) (l @ b # rest) = b # rest" by simp
  show ?thesis
    by (subst splitlines.simps) (simp add: tw dw Let_def b rest)
qed

lemma splitlines_long_two_lines:
  "splitlines long_two_lines = [replicate 300 97, py ''bc'']"
proof -
  have "splitlines (replicate 300 97 @ 10 # py ''bc'') = replicate 300 97 # splitlines (py ''bc'')"
    by (rule splitlines_line_break [OF not_linebreak_a]) (simp_all add: is_linebreak_def py_def)
  then show ?thesis by (simp add: long_two_lines_def splitlines_bc)
qed

lemma set_multi_line_value_long_two_lines:
  "set_multi_line_value gedcom55 note_node (long_two_lines) =
     Some (Elem Element 0 [] (py ''NOTE'') (replicate 248 97) [10]
             [Elem Element 1 [] (py ''CONC'') (replicate 52 97) [10] [],
              Elem Element 1 [] (py ''CONT'') (py ''bc'') [10] []])"
proof -
  have fc: "first_chunk gedcom55 note_node (long_two_lines) =
      replicate 248 97"
    by (simp add: first_chunk_def splitlines_long_two_lines line_length_replicate_a note_node_def
          set_value_def available_note_node)
  have k: "kept_children gedcom55 note_node = []"
    by (simp add: kept_children_def note_node_def)
  have n: "line_length gedcom55 (set_value note_node []) (replicate 300 97) = 248"
    by (simp add: line_length_replicate_a note_node_def set_value_def available_note_node)
  have l: "add_concatenation_loop gedcom55
       (Elem Element 0 [] (py ''NOTE'') (replicate 248 97) [10] []) (replicate 52 97) 0 =
     Some (Elem Element 0 [] (py ''NOTE'') (replicate 248 97) [10]
             [Elem Element 1 [] (py ''CONC'') (replicate 52 97) [10] []])"
    apply (subst add_concatenation_loop_step, simp)
    apply (simp add: tags_gedcom55 child_of_gedcom55 line_length_replicate_a
        available_conc_child set_child_elements_def set_value_def)
    apply (simp add: add_concatenation_loop_fits)
    done
  have b: "line_length gedcom55 (Elem Element 1 [] (py ''CONT'') [] [10] []) (py ''bc'') = 2"
    by (simp add: line_length_eq available_cont_child)
  have d: "drop 2 (py ''bc'') = []" "take 2 (py ''bc'') = py ''bc''" by (simp_all add: py_def)
  have r: "set_multi_line_value_lines gedcom55
       (Elem Element 0 [] (py ''NOTE'') (replicate 248 97) [10]
             [Elem Element 1 [] (py ''CONC'') (replicate 52 97) [10] []]) [py ''bc''] =
     Some (Elem Element 0 [] (py ''NOTE'') (replicate 248 97) [10]
             [Elem Element 1 [] (py ''CONC'') (replicate 52 97) [10] [],
              Elem Element 1 [] (py ''CONT'') (py ''bc'') [10] []])"
  proof -
    have abc: "add_bounded_child gedcom55
         (Elem Element 0 [] (py ''NOTE'') (replicate 248 97) [10]
             [Elem Element 1 [] (py ''CONC'') (replicate 52 97) [10] []])
         (py ''CONT'') (py ''bc'') =
       (Elem Element 0 [] (py ''NOTE'') (replicate 248 97) [10]
             [Elem Element 1 [] (py ''CONC'') (replicate 52 97) [10] [],
              Elem Element 1 [] (py ''CONT'') (py ''bc'') [10] []], 2)"
      by (simp add: add_bounded_child_eq child_of_gedcom55_continued b d
            set_child_elements_def set_value_def)
    show ?thesis
      by (simp add: tags_gedcom55 abc add_concatenation_def add_concatenation_loop_fits d)
  qed
  show ?thesis
    by (simp add: set_multi_line_value_unfold splitlines_long_two_lines fc k n
          del: set_multi_line_value_lines.simps)
       (simp add: note_node_def set_value_def set_child_elements_def l r
          del: set_multi_line_value_lines.simps)
qed

section \<open>The claims\<close>

text \<open>
  C8 (serializer contract).  The non-recursive rendering of a node is
  \<open>level [SP pointer] SP tag [SP value] terminator\<close>, where \<open>tag\<close> is what \<open>get_tag\<close>
  returns, the pointer segment is left out for an empty pointer and the value segment for
  an empty value; for a negative level the node's own line is empty.  The recursive
  rendering is the node's own line followed by the recursive renderings of its children
  in order with nothing between them, so for a negative level it is the children's
  renderings only.
\<close>

theorem to_gedcom_string_contract:
  "to_gedcom_string T e False =
     (if get_level e < 0 then []
      else str_int (get_level e)
           @ (if get_pointer e = [] then [] else [SP] @ get_pointer e)
           @ [SP] @ get_tag T e
           @ (if get_value e = [] then [] else [SP] @ get_value e)
           @ e_crlf e)
   \<and> to_gedcom_string T e True =
       to_gedcom_string T e False
       @ concat (map (\<lambda>c. to_gedcom_string T c True) (get_child_elements e))
   \<and> (get_level e < 0 \<longrightarrow>
        to_gedcom_string T e False = [] \<and>
        to_gedcom_string T e True =
          concat (map (\<lambda>c. to_gedcom_string T c True) (get_child_elements e)))"
proof -
  have line: "to_gedcom_string T e False =
     (if get_level e < 0 then []
      else str_int (get_level e)
           @ (if get_pointer e = [] then [] else [SP] @ get_pointer e)
           @ [SP] @ get_tag T e
           @ (if get_value e = [] then [] else [SP] @ get_value e)
           @ e_crlf e)"
    by (simp add: to_gedcom_string_line get_level_def get_pointer_def get_value_def)
  have rec: "to_gedcom_string T e True =
       to_gedcom_string T e False
       @ concat (map (\<lambda>c. to_gedcom_string T c True) (get_child_elements e))"
    unfolding get_child_elements_def by (rule to_gedcom_string_recursive)
  have "get_level e < 0 \<Longrightarrow> to_gedcom_string T e False = []"
    by (simp add: to_gedcom_string_line get_level_def)
  with line rec show ?thesis by simp
qed

text \<open>
  Witness for C8: a synthetic root (level \<open>-1\<close>) over the record
  \<open>0 @I1@ INDI\<close> with the child \<open>1 NAME Jo\<close> renders as those two lines only.
\<close>

theorem to_gedcom_string_contract_witness:
  "get_level (Elem Element (- 1) [] (py ''ROOT'') [] [10]
       [Elem Element 0 (py ''@I1@'') (py ''INDI'') [] [10]
          [Elem Element 1 [] (py ''NAME'') (py ''Jo'') [10] []]]) < 0
   \<and> to_gedcom_string gedcom55
       (Elem Element (- 1) [] (py ''ROOT'') [] [10]
          [Elem Element 0 (py ''@I1@'') (py ''INDI'') [] [10]
             [Elem Element 1 [] (py ''NAME'') (py ''Jo'') [10] []]]) True
     = py ''0 @I1@ INDI'' @ [10] @ py ''1 NAME Jo'' @ [10]"
  using to_gedcom_string_contract [of gedcom55
       "Elem Element (- 1) [] (py ''ROOT'') [] [10]
          [Elem Element 0 (py ''@I1@'') (py ''INDI'') [] [10]
             [Elem Element 1 [] (py ''NAME'') (py ''Jo'') [10] []]]"]
    to_gedcom_string_contract [of gedcom55
       "Elem Element 0 (py ''@I1@'') (py ''INDI'') [] [10]
             [Elem Element 1 [] (py ''NAME'') (py ''Jo'') [10] []]"]
    to_gedcom_string_contract [of gedcom55
       "Elem Element 1 [] (py ''NAME'') (py ''Jo'') [10] []"]
  by (simp add: get_level_def get_pointer_def get_value_def get_child_elements_def
        get_tag_def py_def str_int_def digits.simps)

text \<open>
  C9.  \<open>SourceElement.get_repository_pointer\<close> returns the empty string whatever the
  children are: the value of a repository-tagged child is assigned to the local variable
  \<open>reference\<close>, and \<open>repository_pointer\<close>, which is returned, is never assigned again.
\<close>

theorem get_repository_pointer_empty: "get_repository_pointer T e = []"
  by (simp add: get_repository_pointer_def get_repository_pointer_fold split_beta)

text \<open>
  Instance of C9: a source record with the child \<open>1 REPO @R1@\<close>.
\<close>

theorem get_repository_pointer_empty_witness:
  "get_repository_pointer gedcom55
     (Elem SourceElement 0 (py ''@S1@'') (py ''SOUR'') [] [10]
        [Elem RepositoryElement 1 [] (py ''REPO'') (py ''@R1@'') [10] []]) = []"
  using get_repository_pointer_empty [of gedcom55
     "Elem SourceElement 0 (py ''@S1@'') (py ''SOUR'') [] [10]
        [Elem RepositoryElement 1 [] (py ''REPO'') (py ''@R1@'') [10] []]"]
  by simp

text \<open>
  C5, as the specification states it, fails: the budget is 255 minus the length of the
  whole rendered line, and that line ends with the node's terminator.  For the node
  \<open>0 NOTE\<close> with terminator \<open>\n\<close> the code computes 248, the claim 249.
\<close>

theorem available_characters_counterexample:
  "available_characters gedcom55 (Elem Element 0 [] (py ''NOTE'') [] [10] []) = 248
   \<and> max 0 (255 - int (length (render_prefix gedcom55
                                  (Elem Element 0 [] (py ''NOTE'') [] [10] [])))) = 249"
  by (simp add: available_characters_def to_gedcom_string_line render_prefix_def
        get_level_def get_pointer_def get_tag_def py_def str_int_def digits.simps)

text \<open>
  C5, amended.  For a node whose value is empty (as it is whenever the splitter asks for
  the budget), the available budget is \<open>max(0, 255 - n)\<close> where \<open>n\<close> is the length of
  the prefix (level, optional pointer, tag and separators) plus the length of the node's
  line terminator; for a node of negative level, whose line is empty, the budget is 255.
\<close>

theorem available_characters_budget:
  "get_value e = [] \<Longrightarrow>
   int (available_characters T e) =
     max 0 (255 - int (length (render_prefix T e)
                       + (if get_level e < 0 then 0 else length (e_crlf e))))"
  by (simp add: available_characters_def to_gedcom_string_line render_prefix_def
        get_level_def get_pointer_def get_value_def Let_def)

theorem available_characters_budget_witness:
  "get_value (Elem Element 0 [] (py ''NOTE'') [] [13, 10] []) = []
   \<and> available_characters gedcom55 (Elem Element 0 [] (py ''NOTE'') [] [13, 10] []) = 247"
  using available_characters_budget [of "Elem Element 0 [] (py ''NOTE'') [] [13, 10] []" gedcom55]
  by (simp add: render_prefix_def get_level_def get_pointer_def get_value_def get_tag_def
        py_def str_int_def digits.simps)

text \<open>
  C6 (break point).  With \<open>a\<close> the node's available budget: a candidate no longer than
  \<open>a\<close> is not cut; a longer one is cut at \<open>a\<close> minus the run of spaces that ends its
  first \<open>a\<close> characters, and at \<open>a\<close> itself when that run fills the whole budget.  The
  cut of a longer candidate is never beyond \<open>a\<close>, it is positive whenever \<open>a\<close> is, and
  so it is 0 only if the first \<open>a\<close> characters are all spaces (which then means
  \<open>a = 0\<close>).
\<close>

theorem line_length_break_point:
  "(length c \<le> available_characters T e \<longrightarrow> line_length T e c = length c)
   \<and> (available_characters T e < length c \<longrightarrow>
        line_length T e c =
          (if trailing_spaces (take (available_characters T e) c) = available_characters T e
           then available_characters T e
           else available_characters T e
                - trailing_spaces (take (available_characters T e) c))
        \<and> line_length T e c \<le> available_characters T e
        \<and> (0 < available_characters T e \<longrightarrow> 0 < line_length T e c)
        \<and> (line_length T e c = 0 \<longrightarrow>
             (\<forall>x \<in> set (take (available_characters T e) c). x = SP)))"
proof -
  have le: "line_length T e c \<le> available_characters T e"
    by (rule line_length_le_available)
  have pos: "0 < line_length T e c"
    if "available_characters T e < length c" "0 < available_characters T e"
  proof -
    from that have "c \<noteq> []" by auto
    with that show ?thesis by (simp add: line_length_pos)
  qed
  have zero: "\<forall>x \<in> set (take (available_characters T e) c). x = SP"
    if "available_characters T e < length c" "line_length T e c = 0"
    using that line_length_zero [of T e c] by simp
  show ?thesis using le pos zero by (simp add: line_length_eq)
qed

text \<open>
  Witness for C6, on the node with a budget of four characters.
  \<open>ab   cd\<close> is cut after \<open>ab\<close>, and seven spaces are cut at 4.
\<close>

theorem line_length_break_point_witness:
  "available_characters gedcom55 narrow_node = 4
   \<and> line_length gedcom55 narrow_node (py ''ab   cd'') = 2
   \<and> line_length gedcom55 narrow_node (replicate 7 SP) = 4
   \<and> line_length gedcom55 narrow_node (py ''abc'') = 3"
proof -
  have 1: "line_length gedcom55 narrow_node (py ''ab   cd'') = 2"
    using line_length_break_point [of "py ''ab   cd''" gedcom55 narrow_node]
    by (simp add: narrow_node_budget py_def trailing_spaces_def)
  have 2: "line_length gedcom55 narrow_node (replicate 7 SP) = 4"
    using line_length_break_point [of "replicate 7 SP" gedcom55 narrow_node]
    by (simp add: narrow_node_budget trailing_spaces_def)
  have 3: "line_length gedcom55 narrow_node (py ''abc'') = 3"
    using line_length_break_point [of "py ''abc''" gedcom55 narrow_node]
    by (simp add: narrow_node_budget py_def)
  from 1 2 3 show ?thesis by (simp add: narrow_node_budget)
qed

text \<open>
  C1, as the specification states it, fails.  \<open>splitlines\<close> drops a line boundary that
  ends the value, and the join puts the node's terminator wherever a boundary was:
  on the node \<open>0 NOTE\<close> (terminator \<open>\n\<close>) the value \<open>a\n\<close> is stored as \<open>a\<close> and
  read back as \<open>a\<close>.
\<close>

theorem round_trip_counterexample:
  "set_multi_line_value gedcom55 note_node (py ''a'' @ [10]) =
     Some (Elem Element 0 [] (py ''NOTE'') (py ''a'') [10] [])
   \<and> get_multi_line_value gedcom55 (Elem Element 0 [] (py ''NOTE'') (py ''a'') [10] [])
       = py ''a''"
  by (simp add: set_multi_line_value_a_newline get_multi_line_value_def get_value_def
        get_child_elements_def)

text \<open>
  C1, amended.  Let the two reserved tags differ from each other and from the record
  tags.  On a node whose concatenation children have a budget of at least one character,
  \<open>set_multi_line_value(node, v)\<close> returns; and whenever it returns,
  \<open>get_multi_line_value(node)\<close> is the lines of \<open>v.splitlines()\<close> joined by the node's
  line terminator.  In particular it is exactly \<open>v\<close> for every \<open>v\<close> without a line
  boundary character, whether empty, short, or longer than the budget.
\<close>

theorem round_trip_lines:
  assumes "wf_tags T"
  shows "(0 < child_budget T e (GEDCOM_TAG_CONCATENATION T) \<longrightarrow>
            (\<exists>r. set_multi_line_value T e v = Some r))
     \<and> (\<forall>r. set_multi_line_value T e v = Some r \<longrightarrow>
            get_multi_line_value T r = str_join (e_crlf e) (splitlines v)
            \<and> ((\<forall>c \<in> set v. \<not> is_linebreak c) \<longrightarrow> get_multi_line_value T r = v))"
proof -
  have "get_multi_line_value T r = v"
    if "set_multi_line_value T e v = Some r" "\<forall>c \<in> set v. \<not> is_linebreak c" for r
    using get_multi_line_value_set [OF assms that(1)] splitlines_no_break [OF that(2)]
    by (cases "v = []") simp_all
  then show ?thesis
    using set_multi_line_value_returns [of T e v] get_multi_line_value_set [OF assms]
    by blast
qed

text \<open>
  Witness for C1: 600 letters \<open>a\<close> on the node \<open>0 NOTE\<close>, more than two lines' worth,
  come back unchanged.
\<close>

theorem round_trip_lines_witness:
  "wf_tags gedcom55
   \<and> 0 < child_budget gedcom55 note_node (GEDCOM_TAG_CONCATENATION gedcom55)
   \<and> (\<exists>r. set_multi_line_value gedcom55 note_node (replicate 600 97) = Some r
          \<and> get_multi_line_value gedcom55 r = replicate 600 97)"
proof -
  have b: "0 < child_budget gedcom55 note_node (GEDCOM_TAG_CONCATENATION gedcom55)"
    by (simp add: child_budget_note_node)
  from round_trip_lines [OF wf_tags_gedcom55, of note_node "replicate 600 97"] b
  obtain r where r: "set_multi_line_value gedcom55 note_node (replicate 600 97) = Some r"
    by blast
  with round_trip_lines [OF wf_tags_gedcom55, of note_node "replicate 600 97"]
    not_linebreak_a [of 600]
  have "get_multi_line_value gedcom55 r = replicate 600 97" by blast
  with r b wf_tags_gedcom55 show ?thesis by blast
qed

text \<open>
  C2, as the specification states it, fails.  The budget counts the line terminator in
  place of the separator before the value, so with an empty terminator the node's line
  is one character too long: on \<open>0 NOTE\<close> with terminator \<open>""\<close>, 300 letters \<open>a\<close> leave
  249 of them on the node, and \<open>0 NOTE\<close>, a space and 249 letters are 256 characters.
  (A prefix that alone is longer than 255 characters is the other way to exceed the
  bound: the splitter cannot shorten it.)
\<close>

theorem line_length_bound_counterexample:
  "set_multi_line_value gedcom55 bare_node (replicate 300 97) =
     Some (Elem Element 0 [] (py ''NOTE'') (replicate 249 97) []
             [Elem Element 1 [] (py ''CONC'') (replicate 51 97) [] []])
   \<and> line_chars gedcom55
        (Elem Element 0 [] (py ''NOTE'') (replicate 249 97) []
             [Elem Element 1 [] (py ''CONC'') (replicate 51 97) [] []]) = 256"
  by (simp add: set_multi_line_value_300_bare line_chars_def to_gedcom_string_line
        get_tag_def str_int_small)

text \<open>
  C2, amended.  After \<open>set_multi_line_value\<close> has returned, every node it produced (the
  node itself and every generated continuation or concatenation child) whose line
  terminator is not empty and whose prefix alone (level, optional pointer, tag and
  separators) is at most 255 characters renders, terminator excluded, to at most 255
  characters.
\<close>

theorem line_length_bound:
  assumes "set_multi_line_value T e v = Some r"
  shows "\<forall>n \<in> set (r # generated_children T e r).
           e_crlf n \<noteq> [] \<and> length (render_prefix T n) \<le> 255 \<longrightarrow> line_chars T n \<le> 255"
proof -
  from set_multi_line_value_result [OF assms] obtain gen where
    r: "r = set_child_elements (set_value e (first_chunk T e v)) (kept_children T e @ gen)"
    and ch: "\<forall>c \<in> set gen. chunk_child T e (GEDCOM_TAG_CONCATENATION T) c
                      \<or> chunk_child T e (GEDCOM_TAG_CONTINUED T) c"
    by blast
  have g: "generated_children T e r = gen"
    using r by (rule generated_children_result)
  have "set_value r [] = set_child_elements (set_value e []) (kept_children T e @ gen)"
    by (simp add: r set_value_set_child_elements)
  then have "length (e_value r) \<le> available_characters T (set_value r [])"
    by (simp add: r first_chunk_le_available)
  then have own: "e_crlf r \<noteq> [] \<and> length (render_prefix T r) \<le> 255 \<longrightarrow> line_chars T r \<le> 255"
    by (simp add: line_chars_bounded)
  have "e_crlf c \<noteq> [] \<and> length (render_prefix T c) \<le> 255 \<longrightarrow> line_chars T c \<le> 255"
    if "c \<in> set gen" for c
    using that ch chunk_child_bounded [of T e _ c] by (auto intro: line_chars_bounded)
  with own g show ?thesis by simp
qed

text \<open>
  Witness for C2: 600 letters \<open>a\<close> on the node \<open>0 NOTE\<close> (terminator \<open>\n\<close>).  The node
  and its two concatenation children all render to 255 characters.
\<close>

theorem line_length_bound_witness:
  "set_multi_line_value gedcom55 note_node (replicate 600 97) =
     Some (Elem Element 0 [] (py ''NOTE'') (replicate 248 97) [10]
             [Elem Element 1 [] (py ''CONC'') (replicate 248 97) [10] [],
              Elem Element 1 [] (py ''CONC'') (replicate 104 97) [10] []])
   \<and> line_chars gedcom55 (Elem Element 0 [] (py ''NOTE'') (replicate 248 97) [10]
             [Elem Element 1 [] (py ''CONC'') (replicate 248 97) [10] [],
              Elem Element 1 [] (py ''CONC'') (replicate 104 97) [10] []]) \<le> 255
   \<and> line_chars gedcom55 (Elem Element 1 [] (py ''CONC'') (replicate 248 97) [10] []) \<le> 255
   \<and> line_chars gedcom55 (Elem Element 1 [] (py ''CONC'') (replicate 104 97) [10] []) \<le> 255"
proof -
  have k: "kept_children gedcom55 note_node = []"
    by (simp add: kept_children_def note_node_def)
  show ?thesis
    using line_length_bound [OF set_multi_line_value_600]
    by (simp add: set_multi_line_value_600 generated_children_def k render_prefix_def
          get_level_def get_pointer_def get_tag_def str_int_small)
qed

text \<open>
  C3, as the specification states it, fails.  \<open>__add_concatenation\<close> calls
  \<open>self.__add_bounded_child\<close> in every round of its loop, so each overflow node becomes
  a child of the original node.  600 letters \<open>a\<close> on the node \<open>0 NOTE\<close> give two
  concatenation children, both directly under the node and both without children.
\<close>

theorem concatenation_children_flat_counterexample:
  "set_multi_line_value gedcom55 note_node (replicate 600 97) =
     Some (Elem Element 0 [] (py ''NOTE'') (replicate 248 97) [10]
             [Elem Element 1 [] (py ''CONC'') (replicate 248 97) [10] [],
              Elem Element 1 [] (py ''CONC'') (replicate 104 97) [10] []])"
  by (rule set_multi_line_value_600)

text \<open>
  C3, amended.  After \<open>set_multi_line_value\<close> has returned, the node's children are the
  kept ones followed by the generated ones, and every generated continuation or
  concatenation node is a child of the original node itself: one level below it, with
  the node's terminator, no pointer, one of the two reserved tags and no children of its
  own.  The overflow nodes are a flat list of siblings, not a nested chain.
\<close>

theorem concatenation_children_flat:
  assumes "set_multi_line_value T e v = Some r"
  shows "e_children r = kept_children T e @ generated_children T e r
     \<and> (\<forall>c \<in> set (generated_children T e r).
           e_children c = [] \<and> e_level c = e_level e + 1 \<and> e_pointer c = []
           \<and> e_crlf c = e_crlf e
           \<and> e_tag c \<in> {GEDCOM_TAG_CONCATENATION T, GEDCOM_TAG_CONTINUED T})"
proof -
  from set_multi_line_value_result [OF assms] obtain gen where
    r: "r = set_child_elements (set_value e (first_chunk T e v)) (kept_children T e @ gen)"
    and ch: "\<forall>c \<in> set gen. chunk_child T e (GEDCOM_TAG_CONCATENATION T) c
                      \<or> chunk_child T e (GEDCOM_TAG_CONTINUED T) c"
    by blast
  have g: "generated_children T e r = gen"
    using r by (rule generated_children_result)
  have "e_children c = [] \<and> e_level c = e_level e + 1 \<and> e_pointer c = []
           \<and> e_crlf c = e_crlf e
           \<and> e_tag c \<in> {GEDCOM_TAG_CONCATENATION T, GEDCOM_TAG_CONTINUED T}"
    if "c \<in> set gen" for c
    using that ch chunk_child_fields [of T e _ c] by auto
  with g r show ?thesis by simp
qed

text \<open>
  Witness for C3: the same 600 letters; both generated children are childless and at
  level 1.
\<close>

theorem concatenation_children_flat_witness:
  "set_multi_line_value gedcom55 note_node (replicate 600 97) =
     Some (Elem Element 0 [] (py ''NOTE'') (replicate 248 97) [10]
             [Elem Element 1 [] (py ''CONC'') (replicate 248 97) [10] [],
              Elem Element 1 [] (py ''CONC'') (replicate 104 97) [10] []])
   \<and> kept_children gedcom55 note_node = []
   \<and> generated_children gedcom55 note_node
        (Elem Element 0 [] (py ''NOTE'') (replicate 248 97) [10]
             [Elem Element 1 [] (py ''CONC'') (replicate 248 97) [10] [],
              Elem Element 1 [] (py ''CONC'') (replicate 104 97) [10] []])
      = [Elem Element 1 [] (py ''CONC'') (replicate 248 97) [10] [],
         Elem Element 1 [] (py ''CONC'') (replicate 104 97) [10] []]"
proof -
  have k: "kept_children gedcom55 note_node = []"
    by (simp add: kept_children_def note_node_def)
  show ?thesis
    using concatenation_children_flat [OF set_multi_line_value_600]
    by (simp add: set_multi_line_value_600 k)
qed

text \<open>
  C4 (purge on reset).  After \<open>set_multi_line_value(node, v)\<close> has returned, the node's
  children are its former children with a tag other than the two reserved ones,
  unchanged and in their order, followed by exactly the children that the same call
  generates on the node stripped of all its children: nothing of the continuation and
  concatenation children of an earlier call is left.  When the reserved tags differ from
  each other and from the record tags, the children with another tag are the same
  before and after.
\<close>

theorem purge_on_reset:
  assumes "set_multi_line_value T e v = Some r"
  shows "e_children r = kept_children T e @ generated_children T e r
     \<and> set_multi_line_value T (set_child_elements e []) v =
         Some (set_child_elements r (generated_children T e r))
     \<and> (wf_tags T \<longrightarrow> kept_children T r = kept_children T e)"
proof -
  from set_multi_line_value_transfer [OF assms] obtain gen where
    r: "r = set_child_elements (set_value e (first_chunk T e v)) (kept_children T e @ gen)"
    and tr: "set_multi_line_value T (set_child_elements e []) v =
         Some (set_child_elements (set_value e (first_chunk T e v)) gen)"
    by blast
  have g: "generated_children T e r = gen"
    using r by (rule generated_children_result)
  have "kept_children T r = kept_children T e" if wf: "wf_tags T"
  proof -
    from set_multi_line_value_result [OF assms] obtain gen' where
      r': "r = set_child_elements (set_value e (first_chunk T e v)) (kept_children T e @ gen')"
      and ch': "\<forall>c \<in> set gen'. chunk_child T e (GEDCOM_TAG_CONCATENATION T) c
                      \<or> chunk_child T e (GEDCOM_TAG_CONTINUED T) c"
      by blast
    from generated_children_result [OF r'] g have "gen' = gen" by simp
    with ch' have
      ch: "\<forall>c \<in> set gen. chunk_child T e (GEDCOM_TAG_CONCATENATION T) c
                      \<or> chunk_child T e (GEDCOM_TAG_CONTINUED T) c"
      by simp
    have "get_tag T c = GEDCOM_TAG_CONCATENATION T \<or> get_tag T c = GEDCOM_TAG_CONTINUED T"
      if "c \<in> set gen" for c
      using that ch wf get_tag_chunk_child [of _ T e c] by (auto simp: wf_tags_def)
    then have "filter (\<lambda>child. get_tag T child \<noteq> GEDCOM_TAG_CONCATENATION T
                    \<and> get_tag T child \<noteq> GEDCOM_TAG_CONTINUED T) gen = []"
      by (auto simp: filter_empty_conv)
    then show ?thesis by (simp add: r kept_children_def)
  qed
  with r tr g show ?thesis by simp
qed

text \<open>
  Witness for C4: the node \<open>0 NOTE old\<close> with the children \<open>1 CONC  text\<close>,
  \<open>1 DATE 1900\<close> and \<open>1 CONT more\<close> is set to \<open>new\<close>: only \<open>1 DATE 1900\<close> is left.
\<close>

theorem purge_on_reset_witness:
  "set_multi_line_value gedcom55 stale_node (py ''new'') =
     Some (Elem Element 0 [] (py ''NOTE'') (py ''new'') [10]
             [Elem Element 1 [] (py ''DATE'') (py ''1900'') [10] []])
   \<and> kept_children gedcom55 stale_node = [Elem Element 1 [] (py ''DATE'') (py ''1900'') [10] []]
   \<and> generated_children gedcom55 stale_node
        (Elem Element 0 [] (py ''NOTE'') (py ''new'') [10]
             [Elem Element 1 [] (py ''DATE'') (py ''1900'') [10] []]) = []
   \<and> wf_tags gedcom55"
proof -
  have "kept_children gedcom55 (Elem Element 0 [] (py ''NOTE'') (py ''new'') [10]
             [Elem Element 1 [] (py ''DATE'') (py ''1900'') [10] []])
       = [Elem Element 1 [] (py ''DATE'') (py ''1900'') [10] []]"
    by (simp add: kept_children_def get_tag_def tags_gedcom55 py_def)
  then show ?thesis
    using purge_on_reset [OF set_multi_line_value_stale] wf_tags_gedcom55
    by (simp add: set_multi_line_value_stale)
qed

text \<open>
  C7: the code does not do what the claim asks.  \<open>__line_length\<close> returns 0 for a
  non-empty line when the budget is 0, and \<open>__add_concatenation\<close> then adds an empty
  child and stays at the same index, for ever.  On the node \<open>0 NOTE\<close> with a terminator
  of 249 characters the node's own budget is 0 and so is the budget of every
  concatenation child \<open>1 CONC\<close>; setting the value \<open>a\<close> never returns.
\<close>

theorem set_multi_line_value_zero_budget_diverges:
  "available_characters gedcom55 wide_node = 0
   \<and> child_budget gedcom55 wide_node (GEDCOM_TAG_CONCATENATION gedcom55) = 0
   \<and> set_multi_line_value gedcom55 wide_node (py ''a'') = None"
proof -
  have "available_characters gedcom55 wide_node = 0"
    unfolding wide_node_def by (rule available_wide_node)
  with child_budget_wide_node set_multi_line_value_wide show ?thesis by simp
qed

text \<open>
  C10, as stated, fails in its parenthesis: not all of the rest lives in generated
  children.  \<open>splitlines\<close> drops the line boundaries, and a boundary that ends the value
  opens no further line: \<open>Element(0, "", "NOTE", "a\n")\<close> has the value \<open>a\<close> and no
  child at all.
\<close>

theorem element_init_rest_counterexample:
  "element_init gedcom55 Element 0 [] (py ''NOTE'') (py ''a'' @ [10]) [10] True =
     Some (Elem Element 0 [] (py ''NOTE'') (py ''a'') [10] [])
   \<and> get_value (Elem Element 0 [] (py ''NOTE'') (py ''a'') [10] []) = py ''a''
   \<and> get_child_elements (Elem Element 0 [] (py ''NOTE'') (py ''a'') [10] []) = []"
  using set_multi_line_value_a_newline
  by (simp add: element_init_multi_line note_node_def get_value_def get_child_elements_def)

text \<open>
  C10, amended.  The constructor with \<open>multi_line = True\<close> runs the split on its value
  argument; it returns whenever the concatenation children have a budget of at least one
  character.  When the value holds a line boundary or is longer than the node's budget,
  and the constructor returns:
  \<^item> \<open>get_value\<close> is the first bounded chunk of the first physical line, shorter than
    the value passed;
  \<^item> the children are, in order, concatenation children whose values together are the
    rest of the first line, and then for every further physical line one group of
    children: a continuation child followed by concatenation children, whose values
    together are that line;
  \<^item> every child is one level below the node, has the node's terminator and no
    children of its own;
  \<^item> the line boundaries themselves are stored nowhere: with the reserved tags distinct
    from each other and from the record tags, \<open>get_multi_line_value\<close> returns the
    physical lines joined by the node's terminator.
\<close>

theorem element_init_first_chunk:
  assumes "(\<exists>c \<in> set v. is_linebreak c)
           \<or> available_characters T (Elem k level pointer tag [] crlf []) < length v"
  shows "(0 < child_budget T (Elem k level pointer tag [] crlf []) (GEDCOM_TAG_CONCATENATION T)
            \<longrightarrow> (\<exists>e. element_init T k level pointer tag v crlf True = Some e))
     \<and> (\<forall>e. element_init T k level pointer tag v crlf True = Some e \<longrightarrow>
           (\<exists>line lines concs groups.
              splitlines v = line # lines
              \<and> get_value e = take (line_length T (Elem k level pointer tag [] crlf []) line) line
              \<and> get_child_elements e = concs @ concat groups
              \<and> (\<forall>x \<in> set concs. e_tag x = GEDCOM_TAG_CONCATENATION T)
              \<and> get_value e @ concat (map e_value concs) = line
              \<and> list_all2 (holds_line T) lines groups)
           \<and> length (get_value e) < length v
           \<and> get_value e \<noteq> v
           \<and> (\<forall>c \<in> set (get_child_elements e).
                 e_tag c \<in> {GEDCOM_TAG_CONCATENATION T, GEDCOM_TAG_CONTINUED T}
                 \<and> e_children c = [] \<and> e_level c = level + 1 \<and> e_crlf c = crlf)
           \<and> (wf_tags T \<longrightarrow> get_multi_line_value T e = str_join crlf (splitlines v)))"
proof -
  define e0 where "e0 = Elem k level pointer tag [] crlf []"
  have e0: "set_value e0 [] = e0" by (simp add: e0_def set_value_def)
  have k: "kept_children T e0 = []" by (simp add: kept_children_def e0_def)
  from assms have "v \<noteq> []" by auto
  from splitlines_first [OF this] obtain line lines where sl: "splitlines v = line # lines"
    by blast
  from assms have "(\<exists>c \<in> set v. is_linebreak c)
           \<or> available_characters T (set_value e0 []) < length v"
    by (simp add: e0_def set_value_def)
  then have short: "length (first_chunk T e0 v) < length v"
    by (rule first_chunk_shorter)
  have fc: "first_chunk T e0 v = take (line_length T e0 line) line"
    by (simp add: first_chunk_def sl e0)
  have "(\<exists>line lines concs groups.
              splitlines v = line # lines
              \<and> get_value e = take (line_length T e0 line) line
              \<and> get_child_elements e = concs @ concat groups
              \<and> (\<forall>x \<in> set concs. e_tag x = GEDCOM_TAG_CONCATENATION T)
              \<and> get_value e @ concat (map e_value concs) = line
              \<and> list_all2 (holds_line T) lines groups)
           \<and> length (get_value e) < length v
           \<and> get_value e \<noteq> v
           \<and> (\<forall>c \<in> set (get_child_elements e).
                 e_tag c \<in> {GEDCOM_TAG_CONCATENATION T, GEDCOM_TAG_CONTINUED T}
                 \<and> e_children c = [] \<and> e_level c = level + 1 \<and> e_crlf c = crlf)
           \<and> (wf_tags T \<longrightarrow> get_multi_line_value T e = str_join crlf (splitlines v))"
    if ret: "set_multi_line_value T e0 v = Some e" for e
  proof -
    from set_multi_line_value_result [OF ret] obtain gen where
      e: "e = set_child_elements (set_value e0 (first_chunk T e0 v)) gen"
      and ch: "\<forall>c \<in> set gen. chunk_child T e0 (GEDCOM_TAG_CONCATENATION T) c
                      \<or> chunk_child T e0 (GEDCOM_TAG_CONTINUED T) c"
      by (auto simp: k)
    have v: "get_value e = first_chunk T e0 v" by (simp add: e get_value_def)
    have fields: "e_tag c \<in> {GEDCOM_TAG_CONCATENATION T, GEDCOM_TAG_CONTINUED T}
        \<and> e_children c = [] \<and> e_level c = level + 1 \<and> e_crlf c = crlf"
      if "c \<in> set (get_child_elements e)" for c
    proof -
      from that have "c \<in> set gen" by (simp add: e get_child_elements_def)
      with ch chunk_child_fields [of T e0 _ c] show ?thesis by (auto simp: e0_def)
    qed
    from set_multi_line_value_groups [OF ret sl] obtain concs groups where
      cs: "get_child_elements e = concs @ concat groups"
      and tg: "\<forall>x \<in> set concs. e_tag x = GEDCOM_TAG_CONCATENATION T"
      and cat: "concat (map e_value concs) = drop (line_length T e0 line) line"
      and gs: "list_all2 (holds_line T) lines groups"
      by (auto simp: k e0 get_child_elements_def)
    have whole: "get_value e @ concat (map e_value concs) = line"
      by (simp add: v fc cat)
    have join: "get_multi_line_value T e = str_join crlf (splitlines v)" if "wf_tags T"
      using get_multi_line_value_set [OF that ret] by (simp add: e0_def)
    from v fc have gv: "get_value e = take (line_length T e0 line) line" by simp
    from v short have sh: "length (get_value e) < length v" by simp
    then have ne: "get_value e \<noteq> v" by auto
    from sl gv cs tg whole gs have
      "\<exists>line lines concs groups.
              splitlines v = line # lines
              \<and> get_value e = take (line_length T e0 line) line
              \<and> get_child_elements e = concs @ concat groups
              \<and> (\<forall>x \<in> set concs. e_tag x = GEDCOM_TAG_CONCATENATION T)
              \<and> get_value e @ concat (map e_value concs) = line
              \<and> list_all2 (holds_line T) lines groups"
      by blast
    with sh ne fields join show ?thesis by blast
  qed
  then show ?thesis
    using set_multi_line_value_returns [of T e0 v]
    by (simp add: element_init_multi_line e0_def)
qed

text \<open>
  Witness for C10: \<open>Element(0, "", "NOTE", v)\<close> where \<open>v\<close> is 300 letters \<open>a\<close>, \<open>\n\<close>
  and \<open>bc\<close> (\<open>long_two_lines\<close>).  The element holds 248 letters, a concatenation child the other 52 and a
  continuation child \<open>bc\<close>; the join gives \<open>v\<close> back.
\<close>

theorem element_init_first_chunk_witness:
  "(\<exists>c \<in> set long_two_lines. is_linebreak c)
   \<and> wf_tags gedcom55
   \<and> element_init gedcom55 Element 0 [] (py ''NOTE'') long_two_lines [10] True =
     Some (Elem Element 0 [] (py ''NOTE'') (replicate 248 97) [10]
             [Elem Element 1 [] (py ''CONC'') (replicate 52 97) [10] [],
              Elem Element 1 [] (py ''CONT'') (py ''bc'') [10] []])
   \<and> get_value (Elem Element 0 [] (py ''NOTE'') (replicate 248 97) [10]
             [Elem Element 1 [] (py ''CONC'') (replicate 52 97) [10] [],
              Elem Element 1 [] (py ''CONT'') (py ''bc'') [10] []]) = replicate 248 97
   \<and> get_multi_line_value gedcom55 (Elem Element 0 [] (py ''NOTE'') (replicate 248 97) [10]
             [Elem Element 1 [] (py ''CONC'') (replicate 52 97) [10] [],
              Elem Element 1 [] (py ''CONT'') (py ''bc'') [10] []])
       = long_two_lines"
proof -
  have lb: "\<exists>c \<in> set long_two_lines. is_linebreak c"
    by (simp add: long_two_lines_def is_linebreak_def)
  have i: "element_init gedcom55 Element 0 [] (py ''NOTE'') long_two_lines [10] True =
     Some (Elem Element 0 [] (py ''NOTE'') (replicate 248 97) [10]
             [Elem Element 1 [] (py ''CONC'') (replicate 52 97) [10] [],
              Elem Element 1 [] (py ''CONT'') (py ''bc'') [10] []])"
    using set_multi_line_value_long_two_lines
    by (simp add: element_init_multi_line note_node_def)
  from element_init_first_chunk
      [of long_two_lines gedcom55 Element 0 "[]" "py ''NOTE''" "[10]", OF disjI1 [OF lb]]
    i wf_tags_gedcom55
  have "get_multi_line_value gedcom55 (Elem Element 0 [] (py ''NOTE'') (replicate 248 97) [10]
             [Elem Element 1 [] (py ''CONC'') (replicate 52 97) [10] [],
              Elem Element 1 [] (py ''CONT'') (py ''bc'') [10] []])
       = str_join [10] (splitlines long_two_lines)"
    by simp
  also have "\<dots> = long_two_lines"
    by (simp add: splitlines_long_two_lines) (simp add: long_two_lines_def)
  finally show ?thesis using lb i wf_tags_gedcom55
    by (simp add: get_value_def)
qed

end
